theory Spec2Isabelle
  imports Main "HOL-Library.Sublist"
begin

section \<open>JavaScript values and strings\<close>

text \<open>
  The server of \<^verbatim>\<open>.devcontainer/ws-server.js\<close> handles values decoded by \<^verbatim>\<open>JSON.parse\<close>.
  A field of a request may be absent (\<^verbatim>\<open>undefined\<close>) or hold any JSON value, and the code
  branches on truthiness, on strict equality with string literals and on whether a
  string method exists, so the values are modelled as a datatype. Strings are lists
  of \<^typ>\<open>char\<close>; all patterns the code searches for are ASCII. Numbers are integers
  (a fractional JSON number behaves like a non-zero integer in every branch of this
  program: it is truthy and it is not a string).
\<close>

datatype jsval =
    JUndefined
  | JNull
  | JBool bool
  | JNum int
  | JStr string
  | JArr "jsval list"
  | JObj "(string \<times> jsval) list"

text \<open>Truthiness, as used by \<^verbatim>\<open>!x\<close>, \<^verbatim>\<open>x && y\<close> and \<^verbatim>\<open>x || y\<close>.\<close>

fun truthy :: "jsval \<Rightarrow> bool" where
  "truthy JUndefined = False"
| "truthy JNull = False"
| "truthy (JBool b) = b"
| "truthy (JNum n) = (n \<noteq> 0)"
| "truthy (JStr s) = (s \<noteq> [])"
| "truthy (JArr _) = True"
| "truthy (JObj _) = True"

text \<open>\<^verbatim>\<open>s.startsWith(p)\<close>, \<^verbatim>\<open>s.includes(p)\<close> (named \<open>js_includes\<close> here) and \<^verbatim>\<open>s.endsWith(p)\<close> on strings.\<close>

fun startsWith :: "string \<Rightarrow> string \<Rightarrow> bool" where
  "startsWith s [] = True"
| "startsWith [] (p # ps) = False"
| "startsWith (c # cs) (p # ps) = (c = p \<and> startsWith cs ps)"

fun js_includes :: "string \<Rightarrow> string \<Rightarrow> bool" where
  "js_includes [] p = (p = [])"
| "js_includes (c # cs) p = (startsWith (c # cs) p \<or> js_includes cs p)"

definition endsWith :: "string \<Rightarrow> string \<Rightarrow> bool" where
  "endsWith s p = startsWith (rev s) (rev p)"

text \<open>\<^verbatim>\<open>filePath.replace(/\\/g, '/')\<close>: every backslash becomes a forward slash.\<close>

definition backslash :: char where
  "backslash = CHR 0x5C"

definition replace_backslashes :: "string \<Rightarrow> string" where
  "replace_backslashes s = map (\<lambda>c. if c = backslash then CHR ''/'' else c) s"

text \<open>\<^verbatim>\<open>/^[A-Za-z]:/.test(s)\<close>: an ASCII letter followed by a colon at the start.\<close>

definition is_ascii_letter :: "char \<Rightarrow> bool" where
  "is_ascii_letter c =
     (let n = (of_char c :: nat) in (65 \<le> n \<and> n \<le> 90) \<or> (97 \<le> n \<and> n \<le> 122))"

fun drive_letter_prefix :: "string \<Rightarrow> bool" where
  "drive_letter_prefix (a # b # _) = (is_ascii_letter a \<and> b = CHR '':'')"
| "drive_letter_prefix _ = False"

section \<open>The path safety validator\<close>

text \<open>
  \<^verbatim>\<open>isPathSafe\<close> (ws-server.js, lines 82 to 90) on a string that has passed the
  \<^verbatim>\<open>!filePath\<close> test. The four checks are kept in the order of the source.
\<close>

definition is_absolute :: "string \<Rightarrow> bool" where
  "is_absolute normalized = (startsWith normalized ''/'' \<or> drive_letter_prefix normalized)"

definition has_traversal :: "string \<Rightarrow> bool" where
  "has_traversal normalized =
     (js_includes normalized ''../'' \<or> js_includes normalized ''/..'' \<or> normalized = ''..'')"

definition targets_git :: "string \<Rightarrow> bool" where
  "targets_git normalized = (startsWith normalized ''.git/'' \<or> normalized = ''.git'')"

definition targets_node_modules :: "string \<Rightarrow> bool" where
  "targets_node_modules normalized =
     (startsWith normalized ''node_modules/'' \<or> normalized = ''node_modules'')"

definition isPathSafe_string :: "string \<Rightarrow> bool" where
  "isPathSafe_string filePath =
     (let normalized = replace_backslashes filePath in
      if is_absolute normalized then False
      else if has_traversal normalized then False
      else if targets_git normalized then False
      else if targets_node_modules normalized then False
      else True)"

text \<open>
  \<^verbatim>\<open>isPathSafe\<close> on any value. A falsy argument returns \<^verbatim>\<open>false\<close>; a truthy value
  that is not a string has no callable \<^verbatim>\<open>replace\<close>, so the call throws a TypeError,
  modelled as \<open>Inl\<close> of the message.
\<close>

fun isPathSafe :: "jsval \<Rightarrow> string + bool" where
  "isPathSafe (JStr s) = (if s = [] then Inr False else Inr (isPathSafe_string s))"
| "isPathSafe v =
     (if \<not> truthy v then Inr False else Inl ''filePath.replace is not a function'')"

text \<open>The first segment of a normalized path: the text before the first slash.\<close>

definition first_segment :: "string \<Rightarrow> string" where
  "first_segment s = takeWhile (\<lambda>c. c \<noteq> CHR ''/'') s"

section \<open>More string primitives of the runtime\<close>

text \<open>
  A string is the list of the bytes of its UTF-8 encoding, assumed well formed; every
  pattern and separator of the program is ASCII, so searching and splitting on bytes
  agree with JavaScript. \<^verbatim>\<open>substring\<close> is modelled by \<open>take\<close> and \<open>drop\<close>, which
  agree with JavaScript when the characters cut off are ASCII, as the two status
  letters and the separator of a porcelain status line are.

  \<^verbatim>\<open>s.split(c)\<close> for a one-character separator: the result is never empty.
\<close>

fun js_split :: "char \<Rightarrow> string \<Rightarrow> string list" where
  "js_split c [] = [[]]"
| "js_split c (x # xs) =
     (if x = c then [] # js_split c xs
      else (case js_split c xs of
              [] \<Rightarrow> [[x]]
            | w # ws \<Rightarrow> (x # w) # ws))"

text \<open>
  White space as \<^verbatim>\<open>trim\<close> and the regular expression class \<^verbatim>\<open>\s\<close> see it: the ASCII
  characters 9 to 13 and 32, and the UTF-8 encodings of U+00A0, U+1680, U+2000 to
  U+200A, U+2028, U+2029, U+202F, U+205F, U+3000 and U+FEFF.
\<close>

definition is_ws1 :: "char \<Rightarrow> bool" where
  "is_ws1 a = (let n = (of_char a :: nat) in (9 \<le> n \<and> n \<le> 13) \<or> n = 32)"

definition is_ws2 :: "char \<Rightarrow> char \<Rightarrow> bool" where
  "is_ws2 a b = (a = CHR 0xC2 \<and> b = CHR 0xA0)"

definition is_ws3 :: "char \<Rightarrow> char \<Rightarrow> char \<Rightarrow> bool" where
  "is_ws3 a b c =
     ((a = CHR 0xE1 \<and> b = CHR 0x9A \<and> c = CHR 0x80)
    \<or> (a = CHR 0xE2 \<and> b = CHR 0x80 \<and> (let n = (of_char c :: nat) in 128 \<le> n \<and> n \<le> 138))
    \<or> (a = CHR 0xE2 \<and> b = CHR 0x80 \<and> (c = CHR 0xA8 \<or> c = CHR 0xA9 \<or> c = CHR 0xAF))
    \<or> (a = CHR 0xE2 \<and> b = CHR 0x81 \<and> c = CHR 0x9F)
    \<or> (a = CHR 0xE3 \<and> b = CHR 0x80 \<and> c = CHR 0x80)
    \<or> (a = CHR 0xEF \<and> b = CHR 0xBB \<and> c = CHR 0xBF))"

fun trimStart :: "string \<Rightarrow> string" where
  "trimStart (a # b # c # rest) =
     (if is_ws1 a then trimStart (b # c # rest)
      else if is_ws2 a b then trimStart (c # rest)
      else if is_ws3 a b c then trimStart rest
      else a # b # c # rest)"
| "trimStart [a, b] =
     (if is_ws1 a then trimStart [b] else if is_ws2 a b then [] else [a, b])"
| "trimStart [a] = (if is_ws1 a then [] else [a])"
| "trimStart [] = []"

text \<open>The same from the end, on the reversed string: \<open>a\<close> is the last byte.\<close>

fun trimEnd_rev :: "string \<Rightarrow> string" where
  "trimEnd_rev (a # b # c # rest) =
     (if is_ws1 a then trimEnd_rev (b # c # rest)
      else if is_ws2 b a then trimEnd_rev (c # rest)
      else if is_ws3 c b a then trimEnd_rev rest
      else a # b # c # rest)"
| "trimEnd_rev [a, b] =
     (if is_ws1 a then trimEnd_rev [b] else if is_ws2 b a then [] else [a, b])"
| "trimEnd_rev [a] = (if is_ws1 a then [] else [a])"
| "trimEnd_rev [] = []"

definition js_trim :: "string \<Rightarrow> string" where
  "js_trim s = rev (trimEnd_rev (rev (trimStart s)))"

text \<open>Decimal text of an integer, as \<^verbatim>\<open>String(n)\<close> and \<^verbatim>\<open>JSON.stringify(n)\<close> print it.\<close>

fun digits_of :: "nat \<Rightarrow> string" where
  "digits_of n =
     (if n < 10 then [char_of (48 + n)]
      else digits_of (n div 10) @ [char_of (48 + n mod 10)])"

definition show_int :: "int \<Rightarrow> string" where
  "show_int i = (if i < 0 then CHR ''-'' # digits_of (nat (- i)) else digits_of (nat i))"

text \<open>
  \<^verbatim>\<open>JSON.stringify\<close> as text. In a string the quote, the backslash and the control
  characters are escaped; an \<^verbatim>\<open>undefined\<close> member of an object is left out and an
  \<^verbatim>\<open>undefined\<close> element of an array prints as \<^verbatim>\<open>null\<close>.
\<close>

definition hex_digit :: "nat \<Rightarrow> char" where
  "hex_digit n = (if n < 10 then char_of (48 + n) else char_of (87 + n))"

definition json_escape :: "char \<Rightarrow> string" where
  "json_escape c =
     (let n = (of_char c :: nat) in
      if c = CHR 0x22 then [backslash, CHR 0x22]
      else if c = backslash then [backslash, backslash]
      else if n = 8 then [backslash, CHR ''b'']
      else if n = 9 then [backslash, CHR ''t'']
      else if n = 10 then [backslash, CHR ''n'']
      else if n = 12 then [backslash, CHR ''f'']
      else if n = 13 then [backslash, CHR ''r'']
      else if n < 32 then [backslash, CHR ''u'', CHR ''0'', CHR ''0'', hex_digit (n div 16), hex_digit (n mod 16)]
      else [c])"

definition json_quote :: "string \<Rightarrow> string" where
  "json_quote s = [CHR 0x22] @ concat (map json_escape s) @ [CHR 0x22]"

fun intersperse :: "string \<Rightarrow> string list \<Rightarrow> string" where
  "intersperse sep [] = []"
| "intersperse sep [x] = x"
| "intersperse sep (x # y # ys) = x @ sep @ intersperse sep (y # ys)"

fun json_text :: "jsval \<Rightarrow> string" where
  "json_text JUndefined = ''null''"
| "json_text JNull = ''null''"
| "json_text (JBool b) = (if b then ''true'' else ''false'')"
| "json_text (JNum n) = show_int n"
| "json_text (JStr s) = json_quote s"
| "json_text (JArr vs) = ''['' @ intersperse '','' (map json_text vs) @ '']''"
| "json_text (JObj kvs) =
     ''{'' @ intersperse '',''
        (map (\<lambda>(k, v). json_quote k @ '':'' @ json_text v)
           (filter (\<lambda>(k, v). v \<noteq> JUndefined) kvs)) @ ''}''"

text \<open>
  \<^verbatim>\<open>String(v)\<close>, the conversion a regular expression applies to its argument: an
  array joins its elements with commas (\<^verbatim>\<open>null\<close> and \<^verbatim>\<open>undefined\<close> as empty text), an
  object prints as \<^verbatim>\<open>[object Object]\<close>.
\<close>

fun js_to_string :: "jsval \<Rightarrow> string" where
  "js_to_string JUndefined = ''undefined''"
| "js_to_string JNull = ''null''"
| "js_to_string (JBool b) = (if b then ''true'' else ''false'')"
| "js_to_string (JNum n) = show_int n"
| "js_to_string (JStr s) = s"
| "js_to_string (JArr vs) =
     intersperse '',''
       (map (\<lambda>v. if v = JUndefined \<or> v = JNull then [] else js_to_string v) vs)"
| "js_to_string (JObj kvs) = ''[object Object]''"

text \<open>
  Property access \<^verbatim>\<open>data.name\<close> on a value other than \<^verbatim>\<open>null\<close> and \<^verbatim>\<open>undefined\<close>: an
  own property of a decoded object, \<^verbatim>\<open>undefined\<close> otherwise (none of the names the
  program reads is a method of strings, numbers, booleans or arrays).
\<close>

fun field :: "jsval \<Rightarrow> string \<Rightarrow> jsval" where
  "field (JObj kvs) name = (case map_of kvs name of None \<Rightarrow> JUndefined | Some v \<Rightarrow> v)"
| "field _ name = JUndefined"

section \<open>Base64 as the Buffer class implements it\<close>

text \<open>
  \<^verbatim>\<open>buffer.toString('base64')\<close> writes the standard alphabet with padding.
  \<^verbatim>\<open>Buffer.from(text, 'base64')\<close> is lenient: it also reads the URL-safe letters,
  skips every other character, and stops at the first padding character. A byte is
  a \<^typ>\<open>char\<close>; file contents are byte lists.
\<close>

text \<open>
  The letter of a six-bit value: \<^verbatim>\<open>A\<close> to \<^verbatim>\<open>Z\<close>, \<^verbatim>\<open>a\<close> to \<^verbatim>\<open>z\<close>, \<^verbatim>\<open>0\<close> to \<^verbatim>\<open>9\<close>, \<^verbatim>\<open>+\<close> and \<^verbatim>\<open>/\<close>.
\<close>

definition b64_char :: "nat \<Rightarrow> char" where
  "b64_char n =
     (let k = n mod 64 in
      if k < 26 then char_of (65 + k)
      else if k < 52 then char_of (71 + k)
      else if k < 62 then char_of (k - 4)
      else if k = 62 then CHR ''+''
      else CHR ''/'')"

definition b64_value :: "char \<Rightarrow> nat option" where
  "b64_value c =
     (let n = (of_char c :: nat) in
      if 65 \<le> n \<and> n \<le> 90 then Some (n - 65)
      else if 97 \<le> n \<and> n \<le> 122 then Some (n - 71)
      else if 48 \<le> n \<and> n \<le> 57 then Some (n + 4)
      else if c = CHR ''+'' \<or> c = CHR ''-'' then Some 62
      else if c = CHR ''/'' \<or> c = CHR ''_'' then Some 63
      else None)"

fun base64_encode :: "string \<Rightarrow> string" where
  "base64_encode (a # b # c # rest) =
     (let x = (of_char a :: nat); y = (of_char b :: nat); z = (of_char c :: nat) in
      [b64_char (x div 4), b64_char ((x mod 4) * 16 + y div 16),
       b64_char ((y mod 16) * 4 + z div 64), b64_char (z mod 64)] @ base64_encode rest)"
| "base64_encode [a, b] =
     (let x = (of_char a :: nat); y = (of_char b :: nat) in
      [b64_char (x div 4), b64_char ((x mod 4) * 16 + y div 16),
       b64_char ((y mod 16) * 4), CHR ''=''])"
| "base64_encode [a] =
     (let x = (of_char a :: nat) in
      [b64_char (x div 4), b64_char ((x mod 4) * 16), CHR ''='', CHR ''=''])"
| "base64_encode [] = []"

definition b64_sextets :: "string \<Rightarrow> nat list" where
  "b64_sextets s = List.map_filter b64_value (takeWhile (\<lambda>c. c \<noteq> CHR ''='') s)"

fun b64_bytes :: "nat list \<Rightarrow> string" where
  "b64_bytes (p # q # r # s # rest) =
     [char_of (p * 4 + q div 16), char_of ((q mod 16) * 16 + r div 4),
      char_of ((r mod 4) * 64 + s)] @ b64_bytes rest"
| "b64_bytes [p, q, r] = [char_of (p * 4 + q div 16), char_of ((q mod 16) * 16 + r div 4)]"
| "b64_bytes [p, q] = [char_of (p * 4 + q div 16)]"
| "b64_bytes _ = []"

definition base64_decode :: "string \<Rightarrow> string" where
  "base64_decode s = b64_bytes (b64_sextets s)"

section \<open>Regular expressions of the exec handler\<close>

text \<open>
  The four patterns of the \<^verbatim>\<open>exec\<close> action are anchored at the start only, so
  \<^verbatim>\<open>pattern.test(s)\<close> asks whether some prefix of \<open>s\<close> matches. They are matched by
  derivatives.
\<close>

datatype rx =
    Zero
  | Eps
  | Cls "char list"
  | NCls "char list"
  | Seq rx rx
  | Alt rx rx
  | Star rx

fun nullable :: "rx \<Rightarrow> bool" where
  "nullable Zero = False"
| "nullable Eps = True"
| "nullable (Cls _) = False"
| "nullable (NCls _) = False"
| "nullable (Seq r s) = (nullable r \<and> nullable s)"
| "nullable (Alt r s) = (nullable r \<or> nullable s)"
| "nullable (Star r) = True"

fun deriv :: "char \<Rightarrow> rx \<Rightarrow> rx" where
  "deriv c Zero = Zero"
| "deriv c Eps = Zero"
| "deriv c (Cls cs) = (if c \<in> set cs then Eps else Zero)"
| "deriv c (NCls cs) = (if c \<in> set cs then Zero else Eps)"
| "deriv c (Seq r s) =
     (if nullable r then Alt (Seq (deriv c r) s) (deriv c s) else Seq (deriv c r) s)"
| "deriv c (Alt r s) = Alt (deriv c r) (deriv c s)"
| "deriv c (Star r) = Seq (deriv c r) (Star r)"

fun rx_test :: "rx \<Rightarrow> string \<Rightarrow> bool" where
  "rx_test r [] = nullable r"
| "rx_test r (c # cs) = (nullable r \<or> rx_test (deriv c r) cs)"

fun rx_lit :: "string \<Rightarrow> rx" where
  "rx_lit [] = Eps"
| "rx_lit (c # cs) = Seq (Cls [c]) (rx_lit cs)"

definition rx_plus :: "rx \<Rightarrow> rx" where
  "rx_plus r = Seq r (Star r)"

definition rx_space :: rx where
  "rx_space =
     Alt (Cls [CHR 0x09, CHR 0x0A, CHR 0x0B, CHR 0x0C, CHR 0x0D, CHR 0x20])
    (Alt (rx_lit [CHR 0xC2, CHR 0xA0])
    (Alt (rx_lit [CHR 0xE1, CHR 0x9A, CHR 0x80])
    (Alt (Seq (rx_lit [CHR 0xE2, CHR 0x80])
            (Cls [CHR 0x80, CHR 0x81, CHR 0x82, CHR 0x83, CHR 0x84, CHR 0x85, CHR 0x86,
                  CHR 0x87, CHR 0x88, CHR 0x89, CHR 0x8A, CHR 0xA8, CHR 0xA9, CHR 0xAF]))
    (Alt (rx_lit [CHR 0xE2, CHR 0x81, CHR 0x9F])
    (Alt (rx_lit [CHR 0xE3, CHR 0x80, CHR 0x80])
         (rx_lit [CHR 0xEF, CHR 0xBB, CHR 0xBF]))))))"

definition allowedPatterns :: "rx list" where
  "allowedPatterns =
     [ Seq (rx_lit ''cd'') (Seq (rx_plus rx_space) (Seq (rx_lit ''/workspaces/'')
        (Seq (rx_plus (NCls ''&;|'')) (Seq (Star rx_space) (Seq (rx_lit ''&&'')
        (Seq (Star rx_space) (Seq (rx_lit ''npm'') (Seq (rx_plus rx_space)
        (Seq (Alt (rx_lit ''install'') (rx_lit ''i'')) (rx_plus rx_space)))))))))),
       Seq (rx_lit ''pm2'') (Seq (rx_plus rx_space)
        (Seq (Alt (rx_lit ''restart'') (Alt (rx_lit ''start'') (Alt (rx_lit ''stop'') (rx_lit ''reload''))))
             (rx_plus rx_space))),
       Seq (rx_lit ''pkill'') (Seq (rx_plus rx_space) (Seq (rx_lit ''-f'') (rx_plus rx_space))),
       Seq (rx_lit ''npm'') (Seq (rx_plus rx_space) (Seq (rx_lit ''run'') (rx_plus rx_space))) ]"

section \<open>The working directory\<close>

text \<open>
  The handlers call Node's \<^verbatim>\<open>fs/promises\<close> with paths relative to the working
  directory of the process. The directory is modelled as a tree: a file holds its
  bytes, a directory its entries in directory-entry order and whether it may be
  listed. Time stamps, links and ownership are not modelled. A path is resolved
  segment by segment; empty segments and \<^verbatim>\<open>.\<close> are skipped, and no entry is named
  \<^verbatim>\<open>..\<close> (the validator lets no such segment through, as is proved at the end).
\<close>

datatype fsnode =
    File string
  | Dir bool "(string \<times> fsnode) list"

definition segments :: "string \<Rightarrow> string list" where
  "segments p = filter (\<lambda>s. s \<noteq> [] \<and> s \<noteq> ''.'') (js_split CHR ''/'' p)"

fun lookup :: "string list \<Rightarrow> fsnode \<Rightarrow> fsnode option" where
  "lookup [] n = Some n"
| "lookup (s # ss) (Dir r es) = (case map_of es s of None \<Rightarrow> None | Some c \<Rightarrow> lookup ss c)"
| "lookup (s # ss) (File _) = None"

text \<open>Replace an entry in place, or add it after the last entry.\<close>

fun set_entry :: "string \<Rightarrow> fsnode \<Rightarrow> (string \<times> fsnode) list \<Rightarrow> (string \<times> fsnode) list" where
  "set_entry k v [] = [(k, v)]"
| "set_entry k v ((k', v') # es) =
     (if k' = k then (k, v) # es else (k', v') # set_entry k v es)"

fun put :: "string list \<Rightarrow> fsnode \<Rightarrow> fsnode \<Rightarrow> fsnode option" where
  "put [] new n = None"
| "put [s] new (Dir r es) = Some (Dir r (set_entry s new es))"
| "put (s # ss) new (Dir r es) =
     (case map_of es s of
        None \<Rightarrow> None
      | Some c \<Rightarrow> (case put ss new c of
                    None \<Rightarrow> None
                  | Some c' \<Rightarrow> Some (Dir r (set_entry s c' es))))"
| "put (s # ss) new (File _) = None"

fun remove :: "string list \<Rightarrow> fsnode \<Rightarrow> fsnode option" where
  "remove [] n = None"
| "remove [s] (Dir r es) = Some (Dir r (filter (\<lambda>e. fst e \<noteq> s) es))"
| "remove (s # ss) (Dir r es) =
     (case map_of es s of
        None \<Rightarrow> None
      | Some c \<Rightarrow> (case remove ss c of
                    None \<Rightarrow> None
                  | Some c' \<Rightarrow> Some (Dir r (set_entry s c' es))))"
| "remove (s # ss) (File _) = None"

text \<open>\<^verbatim>\<open>mkdir\<close> with \<^verbatim>\<open>recursive: true\<close>: the chain is created, existing directories are kept.\<close>

fun mkdirp :: "string list \<Rightarrow> fsnode \<Rightarrow> fsnode option" where
  "mkdirp [] (Dir r es) = Some (Dir r es)"
| "mkdirp [] (File _) = None"
| "mkdirp (s # ss) (Dir r es) =
     (case mkdirp ss (case map_of es s of None \<Rightarrow> Dir True [] | Some c \<Rightarrow> c) of
        None \<Rightarrow> None
      | Some c' \<Rightarrow> Some (Dir r (set_entry s c' es)))"
| "mkdirp (s # ss) (File _) = None"

definition ENOENT :: string where "ENOENT = ''ENOENT: no such file or directory''"
definition EISDIR :: string where "EISDIR = ''EISDIR: illegal operation on a directory''"
definition ENOTDIR :: string where "ENOTDIR = ''ENOTDIR: not a directory''"
definition EEXIST :: string where "EEXIST = ''EEXIST: file already exists''"
definition ENOTEMPTY :: string where "ENOTEMPTY = ''ENOTEMPTY: directory not empty''"
definition EINVAL :: string where "EINVAL = ''EINVAL: invalid argument''"
definition EACCES :: string where "EACCES = ''EACCES: permission denied''"

definition fs_readFile :: "string \<Rightarrow> fsnode \<Rightarrow> string + string" where
  "fs_readFile p root =
     (if p = [] then Inl ENOENT
      else case lookup (segments p) root of
             None \<Rightarrow> Inl ENOENT
           | Some (Dir _ _) \<Rightarrow> Inl EISDIR
           | Some (File bytes) \<Rightarrow> Inr bytes)"

definition fs_writeFile :: "string \<Rightarrow> string \<Rightarrow> fsnode \<Rightarrow> string + fsnode" where
  "fs_writeFile p bytes root =
     (if p = [] then Inl ENOENT
      else case lookup (segments p) root of
             Some (Dir _ _) \<Rightarrow> Inl EISDIR
           | _ \<Rightarrow> (case put (segments p) (File bytes) root of
                    None \<Rightarrow> Inl ENOENT
                  | Some root' \<Rightarrow> Inr root'))"

definition fs_mkdir :: "string \<Rightarrow> fsnode \<Rightarrow> string + fsnode" where
  "fs_mkdir p root =
     (if p = [] then Inl ENOENT
      else case mkdirp (segments p) root of
             None \<Rightarrow> Inl EEXIST
           | Some root' \<Rightarrow> Inr root')"

text \<open>\<^verbatim>\<open>fs.stat(p)\<close>, read through \<^verbatim>\<open>stats.isDirectory()\<close>.\<close>

definition fs_stat :: "string \<Rightarrow> fsnode \<Rightarrow> string + bool" where
  "fs_stat p root =
     (if p = [] then Inl ENOENT
      else case lookup (segments p) root of
             None \<Rightarrow> Inl ENOENT
           | Some (Dir _ _) \<Rightarrow> Inr True
           | Some (File _) \<Rightarrow> Inr False)"

text \<open>\<^verbatim>\<open>fs.rm(p, { recursive: true, force: true })\<close>: a missing target is no error.\<close>

definition fs_rm :: "string \<Rightarrow> fsnode \<Rightarrow> string + fsnode" where
  "fs_rm p root =
     (case lookup (segments p) root of
        None \<Rightarrow> Inr root
      | Some _ \<Rightarrow> (case remove (segments p) root of
                    None \<Rightarrow> Inl EINVAL
                  | Some root' \<Rightarrow> Inr root'))"

definition fs_unlink :: "string \<Rightarrow> fsnode \<Rightarrow> string + fsnode" where
  "fs_unlink p root =
     (if p = [] then Inl ENOENT
      else case lookup (segments p) root of
             None \<Rightarrow> Inl ENOENT
           | Some (Dir _ _) \<Rightarrow> Inl EISDIR
           | Some (File _) \<Rightarrow> (case remove (segments p) root of
                                None \<Rightarrow> Inl EINVAL
                              | Some root' \<Rightarrow> Inr root'))"

definition fs_rename :: "string \<Rightarrow> string \<Rightarrow> fsnode \<Rightarrow> string + fsnode" where
  "fs_rename old new root =
     (if old = [] \<or> new = [] then Inl ENOENT
      else case lookup (segments old) root of
             None \<Rightarrow> Inl ENOENT
           | Some node \<Rightarrow>
               if segments old = segments new then Inr root
               else if prefix (segments old) (segments new) then Inl EINVAL
               else (case (node, lookup (segments new) root) of
                       (File _, Some (Dir _ _)) \<Rightarrow> Inl EISDIR
                     | (Dir _ _, Some (File _)) \<Rightarrow> Inl ENOTDIR
                     | (Dir _ _, Some (Dir _ (e # es))) \<Rightarrow> Inl ENOTEMPTY
                     | _ \<Rightarrow> (case remove (segments old) root of
                              None \<Rightarrow> Inl EINVAL
                            | Some root1 \<Rightarrow> (case put (segments new) node root1 of
                                              None \<Rightarrow> Inl ENOENT
                                            | Some root2 \<Rightarrow> Inr root2))))"

text \<open>\<^verbatim>\<open>fs.utimes\<close> fails on a missing file and changes nothing that is modelled.\<close>

definition fs_utimes :: "string \<Rightarrow> fsnode \<Rightarrow> string + unit" where
  "fs_utimes p root =
     (case lookup (segments p) root of None \<Rightarrow> Inl ENOENT | Some _ \<Rightarrow> Inr ())"

text \<open>\<^verbatim>\<open>fs.readdir(dir, { withFileTypes: true })\<close> on the node a path resolves to.\<close>

fun fs_readdir :: "fsnode option \<Rightarrow> string + (string \<times> fsnode) list" where
  "fs_readdir None = Inl ENOENT"
| "fs_readdir (Some (File _)) = Inl ENOTDIR"
| "fs_readdir (Some (Dir readable es)) = (if readable then Inr es else Inl EACCES)"

text \<open>\<^verbatim>\<open>path.dirname\<close> of Node's POSIX path module.\<close>

definition path_dirname :: "string \<Rightarrow> string" where
  "path_dirname p =
     (if p = [] then ''.''
      else
        let hasRoot = (hd p = CHR ''/'');
            r1 = dropWhile (\<lambda>c. c = CHR ''/'') (rev (tl p));
            r2 = dropWhile (\<lambda>c. c \<noteq> CHR ''/'') r1
        in if r2 = [] then (if hasRoot then ''/'' else ''.'')
           else if hasRoot \<and> length r2 = 1 then ''//''
           else take (length r2) p)"

section \<open>State, effects and exceptions\<close>

text \<open>
  One record holds what a message handler can change: the working directory, the
  list of calls that reached the file system or started a subprocess (a subprocess
  with the message of its failure, if it failed), the messages
  sent on the connection, the close frame if the server closed the connection,
  whether the message handler is registered, and the identity bound at
  authentication. A thrown exception is \<open>Inl\<close> of its message; the state at the throw
  is kept, as effects before a throw are not undone.
\<close>

datatype effect =
    ReadFile string
  | WriteFile string string
  | Mkdir string
  | Stat string
  | Rm string
  | Unlink string
  | Rename string string
  | Utimes string
  | Readdir string
  | Exec string "string option"

record state =
  root :: fsnode
  trace :: "effect list"
  sent :: "jsval list"
  closed :: "(nat \<times> string) option"
  listening :: bool
  userId :: jsval
  username :: jsval
  repoId :: jsval
  repoName :: jsval

type_synonym 'a io = "state \<Rightarrow> (string + 'a) \<times> state"

text \<open>
  The subprocess runner \<^verbatim>\<open>execAsync\<close> is a parameter: given the command line and the
  working directory it fails with a message (spawn error or non-zero exit) or
  returns \<^verbatim>\<open>stdout\<close> and \<^verbatim>\<open>stderr\<close>, and it may change the working directory.
\<close>

type_synonym shell = "string \<Rightarrow> fsnode \<Rightarrow> (string + string \<times> string) \<times> fsnode"

definition io_return :: "'a \<Rightarrow> 'a io" where
  "io_return x = (\<lambda>s. (Inr x, s))"

definition io_throw :: "string \<Rightarrow> 'a io" where
  "io_throw e = (\<lambda>s. (Inl e, s))"

definition io_bind :: "'a io \<Rightarrow> ('a \<Rightarrow> 'b io) \<Rightarrow> 'b io" where
  "io_bind m f = (\<lambda>s. case m s of (Inl e, s') \<Rightarrow> (Inl e, s') | (Inr x, s') \<Rightarrow> f x s')"

text \<open>\<^verbatim>\<open>try { m } catch (error) { h(error.message) }\<close>\<close>

definition io_catch :: "'a io \<Rightarrow> (string \<Rightarrow> 'a io) \<Rightarrow> 'a io" where
  "io_catch m h = (\<lambda>s. case m s of (Inl e, s') \<Rightarrow> h e s' | (Inr x, s') \<Rightarrow> (Inr x, s'))"

text \<open>A call that reads the working directory, and one that changes it.\<close>

definition io_read :: "effect \<Rightarrow> (fsnode \<Rightarrow> string + 'a) \<Rightarrow> 'a io" where
  "io_read e f = (\<lambda>s. (f (root s), s\<lparr>trace := trace s @ [e]\<rparr>))"

definition io_update :: "effect \<Rightarrow> (fsnode \<Rightarrow> string + fsnode) \<Rightarrow> unit io" where
  "io_update e f =
     (\<lambda>s. case f (root s) of
            Inl err \<Rightarrow> (Inl err, s\<lparr>trace := trace s @ [e]\<rparr>)
          | Inr r \<Rightarrow> (Inr (), s\<lparr>root := r, trace := trace s @ [e]\<rparr>))"

definition execAsync :: "shell \<Rightarrow> string \<Rightarrow> (string \<times> string) io" where
  "execAsync sh cmd =
     (\<lambda>s. case sh cmd (root s) of
            (res, r) \<Rightarrow>
              (res, s\<lparr>root := r,
                      trace := trace s @ [Exec cmd (case res of Inl e \<Rightarrow> Some e | Inr _ \<Rightarrow> None)]\<rparr>))"

text \<open>
  \<^verbatim>\<open>ws.send(JSON.stringify(obj))\<close>: the message is kept as the object the client
  decodes, that is without the members whose value is \<^verbatim>\<open>undefined\<close>.
\<close>

definition stringify_object :: "(string \<times> jsval) list \<Rightarrow> jsval" where
  "stringify_object members = JObj (filter (\<lambda>(k, v). v \<noteq> JUndefined) members)"

definition send :: "(string \<times> jsval) list \<Rightarrow> unit io" where
  "send members = (\<lambda>s. (Inr (), s\<lparr>sent := sent s @ [stringify_object members]\<rparr>))"

text \<open>
  Node validates an argument before it touches the file system: a path that is
  not a string throws a TypeError and nothing happens. The same holds for the
  data of \<^verbatim>\<open>writeFile\<close> and for the text of \<^verbatim>\<open>Buffer.from\<close>; content that is an array
  (which Node would read as a list of chunks or bytes) is outside the model and
  treated like any other value that is not a string.
\<close>

fun arg_string :: "string \<Rightarrow> jsval \<Rightarrow> string io" where
  "arg_string name (JStr s) = io_return s"
| "arg_string name v = io_throw (''The '' @ name @ '' argument must be of type string'')"

section \<open>Directory listing\<close>

text \<open>
  \<^verbatim>\<open>listDirectory\<close> (lines 93 to 125). The first argument is the node the directory
  path resolves to (\<open>None\<close> when nothing is there); the path joined with an entry
  name resolves to that entry's node. When \<^verbatim>\<open>readdir\<close> throws (nothing there, a
  file, or a directory that may not be listed), the \<^verbatim>\<open>catch\<close> logs and the still
  empty \<^verbatim>\<open>files\<close> is returned. \<open>listEntries\<close> is the \<^verbatim>\<open>for\<close> loop, with \<^verbatim>\<open>files\<close> as its
  accumulator.
\<close>

definition dirent :: "string \<Rightarrow> string \<Rightarrow> bool \<Rightarrow> jsval" where
  "dirent name path isDir =
     JObj [(''name'', JStr name), (''path'', JStr path), (''isDirectory'', JBool isDir)]"

fun isDirectory :: "fsnode \<Rightarrow> bool" where
  "isDirectory (Dir _ _) = True"
| "isDirectory (File _) = False"

function listDirectory :: "fsnode option \<Rightarrow> string \<Rightarrow> jsval list"
  and listEntries :: "(string \<times> fsnode) list \<Rightarrow> string \<Rightarrow> jsval list \<Rightarrow> jsval list"
where
  "listDirectory None basePath = []"
| "listDirectory (Some (File bytes)) basePath = []"
| "listDirectory (Some (Dir readable entries)) basePath =
     (if readable then listEntries entries basePath [] else [])"
| "listEntries [] basePath files = files"
| "listEntries ((name, node) # rest) basePath files =
     (if startsWith name ''.'' \<and> name \<noteq> ''.astro'' \<and> name \<noteq> ''.devcontainer''
      then listEntries rest basePath files
      else if name = ''node_modules'' \<or> name = ''dist'' \<or> name = ''.git''
      then listEntries rest basePath files
      else
        let relativePath = (if basePath \<noteq> [] then basePath @ ''/'' @ name else name) in
        if isDirectory node
        then listEntries rest basePath
               (files @ [dirent name relativePath True] @ listDirectory (Some node) relativePath)
        else listEntries rest basePath (files @ [dirent name relativePath False]))"
  by pat_completeness auto
termination
  by (relation "measure (\<lambda>x. case x of
        Inl (d, b) \<Rightarrow> (case d of None \<Rightarrow> 0 | Some n \<Rightarrow> 2 * size n + 1)
      | Inr (es, b, f) \<Rightarrow> 2 * size_list (size_prod (\<lambda>_. 0) size) es)") auto

section \<open>File operation handlers\<close>

text \<open>
  Each handler is the body of one \<^verbatim>\<open>case\<close> of the \<^verbatim>\<open>switch\<close> (lines 190 to 595): a
  \<^verbatim>\<open>try\<close> block that ends by sending the success response, and a \<^verbatim>\<open>catch\<close> that sends
  the failure response with \<^verbatim>\<open>error.message\<close>. Console output is not modelled.
\<close>

definition readFile :: "jsval \<Rightarrow> string io" where
  "readFile path =
     io_bind (arg_string ''path'' path) (\<lambda>p. io_read (ReadFile p) (fs_readFile p))"

definition writeFile :: "jsval \<Rightarrow> string \<Rightarrow> unit io" where
  "writeFile path bytes =
     io_bind (arg_string ''path'' path)
       (\<lambda>p. io_update (WriteFile p bytes) (fs_writeFile p bytes))"

definition mkdir_recursive :: "jsval \<Rightarrow> unit io" where
  "mkdir_recursive path =
     io_bind (arg_string ''path'' path) (\<lambda>p. io_update (Mkdir p) (fs_mkdir p))"

definition dirname :: "jsval \<Rightarrow> string io" where
  "dirname path = io_bind (arg_string ''path'' path) (\<lambda>p. io_return (path_dirname p))"

text \<open>
  The Tailwind trigger of \<^verbatim>\<open>write\<close> and \<^verbatim>\<open>create\<close> (lines 233 to 241): the stylesheet
  is touched when the path ends with one of the extensions, and a failure of the
  touch is swallowed by the inner \<^verbatim>\<open>catch\<close>.
\<close>

definition tailwindTriggerExtensions :: "string list" where
  "tailwindTriggerExtensions =
     [''.astro'', ''.tsx'', ''.jsx'', ''.html'', ''.mdx'', ''.md'', ''.vue'', ''.svelte'']"

definition touch_global_css :: "jsval \<Rightarrow> unit io" where
  "touch_global_css path =
     io_bind (arg_string ''path'' path) (\<lambda>p.
       if list_ex (\<lambda>ext. endsWith p ext) tailwindTriggerExtensions
       then io_catch (io_read (Utimes ''src/styles/global.css'') (fs_utimes ''src/styles/global.css''))
              (\<lambda>e. io_return ())
       else io_return ())"

definition handle_read :: "jsval \<Rightarrow> unit io" where
  "handle_read data =
     io_catch
       (io_bind
          (if field data ''encoding'' = JStr ''base64''
           then io_bind (readFile (field data ''path'')) (\<lambda>buffer. io_return (base64_encode buffer))
           else readFile (field data ''path''))
          (\<lambda>content.
             send [(''action'', JStr ''read''),
                   (''path'', field data ''path''),
                   (''content'', JStr content),
                   (''encoding'', if truthy (field data ''encoding'')
                                  then field data ''encoding'' else JStr ''utf8''),
                   (''success'', JBool True)]))
       (\<lambda>error.
          send [(''action'', JStr ''read''),
                (''path'', field data ''path''),
                (''success'', JBool False),
                (''error'', JStr error)])"

definition handle_write :: "jsval \<Rightarrow> unit io" where
  "handle_write data =
     io_catch
       (io_bind (dirname (field data ''path'')) (\<lambda>dir.
        io_bind (mkdir_recursive (JStr dir)) (\<lambda>_.
        io_bind
          (if field data ''encoding'' = JStr ''base64''
           then io_bind (arg_string ''first'' (field data ''content''))
                  (\<lambda>text. writeFile (field data ''path'') (base64_decode text))
           else io_bind (arg_string ''data'' (field data ''content''))
                  (\<lambda>text. writeFile (field data ''path'') text)) (\<lambda>_.
        io_bind (touch_global_css (field data ''path'')) (\<lambda>_.
          send [(''action'', JStr ''write''),
                (''path'', field data ''path''),
                (''success'', JBool True)])))))
       (\<lambda>error.
          send [(''action'', JStr ''write''),
                (''path'', field data ''path''),
                (''success'', JBool False),
                (''error'', JStr error)])"

text \<open>
  \<^verbatim>\<open>list\<close>: \<^verbatim>\<open>path.join(process.cwd(), data.path)\<close> throws on a path that is not a
  string; the root of the tree is the working directory. The traversal is
  recorded as one \<open>Readdir\<close> effect.
\<close>

definition handle_list :: "jsval \<Rightarrow> unit io" where
  "handle_list data =
     io_catch
       (io_bind
          (if field data ''path'' = JStr ''.'' then io_return []
           else arg_string ''path'' (field data ''path'')) (\<lambda>targetPath.
        io_bind
          (io_read (Readdir targetPath)
             (\<lambda>cwd. Inr (listDirectory (lookup (segments targetPath) cwd)
                            (if field data ''path'' = JStr ''.'' then [] else targetPath))))
          (\<lambda>files.
             send [(''action'', JStr ''list''),
                   (''path'', field data ''path''),
                   (''files'', JArr files),
                   (''success'', JBool True)])))
       (\<lambda>error.
          send [(''action'', JStr ''list''),
                (''path'', field data ''path''),
                (''success'', JBool False),
                (''error'', JStr error)])"

definition handle_delete :: "jsval \<Rightarrow> unit io" where
  "handle_delete data =
     io_catch
       (io_bind (arg_string ''path'' (field data ''path'')) (\<lambda>p.
        io_bind (io_read (Stat p) (fs_stat p)) (\<lambda>stats_isDirectory.
        io_bind
          (if stats_isDirectory then io_update (Rm p) (fs_rm p)
           else io_update (Unlink p) (fs_unlink p)) (\<lambda>_.
          send [(''action'', JStr ''delete''),
                (''path'', field data ''path''),
                (''success'', JBool True)]))))
       (\<lambda>error.
          send [(''action'', JStr ''delete''),
                (''path'', field data ''path''),
                (''success'', JBool False),
                (''error'', JStr error)])"

text \<open>\<^verbatim>\<open>isPathSafe\<close> inside a \<^verbatim>\<open>try\<close>: its TypeError is thrown on.\<close>

definition checkPathSafe :: "jsval \<Rightarrow> bool io" where
  "checkPathSafe v = (case isPathSafe v of Inl e \<Rightarrow> io_throw e | Inr b \<Rightarrow> io_return b)"

definition handle_rename :: "jsval \<Rightarrow> unit io" where
  "handle_rename data =
     io_catch
       (io_bind
          (if \<not> truthy (field data ''oldPath'') \<or> \<not> truthy (field data ''newPath'')
           then io_throw ''oldPath and newPath are required'' else io_return ()) (\<lambda>_.
        io_bind (checkPathSafe (field data ''oldPath'')) (\<lambda>oldSafe.
        io_bind (if \<not> oldSafe then io_return False else checkPathSafe (field data ''newPath''))
          (\<lambda>bothSafe.
        io_bind (if \<not> bothSafe then io_throw ''Invalid path'' else io_return ()) (\<lambda>_.
        io_bind (dirname (field data ''newPath'')) (\<lambda>newDir.
        io_bind (mkdir_recursive (JStr newDir)) (\<lambda>_.
        io_bind (arg_string ''oldPath'' (field data ''oldPath'')) (\<lambda>old.
        io_bind (arg_string ''newPath'' (field data ''newPath'')) (\<lambda>new.
        io_bind (io_update (Rename old new) (fs_rename old new)) (\<lambda>_.
          send [(''action'', JStr ''rename''),
                (''oldPath'', field data ''oldPath''),
                (''newPath'', field data ''newPath''),
                (''success'', JBool True)]))))))))))
       (\<lambda>error.
          send [(''action'', JStr ''rename''),
                (''oldPath'', field data ''oldPath''),
                (''newPath'', field data ''newPath''),
                (''success'', JBool False),
                (''error'', JStr error)])"

definition handle_create :: "jsval \<Rightarrow> unit io" where
  "handle_create data =
     io_catch
       (io_bind (dirname (field data ''path'')) (\<lambda>dir.
        io_bind (mkdir_recursive (JStr dir)) (\<lambda>_.
        io_bind (arg_string ''data''
                   (if truthy (field data ''content'') then field data ''content'' else JStr []))
          (\<lambda>text.
        io_bind (writeFile (field data ''path'') text) (\<lambda>_.
        io_bind (touch_global_css (field data ''path'')) (\<lambda>_.
          send [(''action'', JStr ''create''),
                (''path'', field data ''path''),
                (''success'', JBool True)]))))))
       (\<lambda>error.
          send [(''action'', JStr ''create''),
                (''path'', field data ''path''),
                (''success'', JBool False),
                (''error'', JStr error)])"

definition handle_mkdir :: "jsval \<Rightarrow> unit io" where
  "handle_mkdir data =
     io_catch
       (io_bind (mkdir_recursive (field data ''path'')) (\<lambda>_.
          send [(''action'', JStr ''mkdir''),
                (''path'', field data ''path''),
                (''success'', JBool True)]))
       (\<lambda>error.
          send [(''action'', JStr ''mkdir''),
                (''path'', field data ''path''),
                (''success'', JBool False),
                (''error'', JStr error)])"

section \<open>Git and exec handlers\<close>

definition allowedCommands :: "string list" where
  "allowedCommands =
     [''status'', ''diff'', ''log'', ''branch'', ''add'', ''commit'', ''push'', ''pull'',
      ''fetch'', ''checkout'', ''stash'']"

text \<open>
  \<^verbatim>\<open>command.split(' ')[0]\<close>: a command that is not a string has no callable
  \<^verbatim>\<open>split\<close>, which throws a TypeError inside the \<^verbatim>\<open>try\<close>.
\<close>

fun first_token :: "jsval \<Rightarrow> string io" where
  "first_token (JStr command) =
     (case js_split CHR '' '' command of
        [] \<Rightarrow> io_throw ''no token''
      | gitCommand # _ \<Rightarrow> io_return gitCommand)"
| "first_token v = io_throw ''command.split is not a function''"

definition handle_git :: "shell \<Rightarrow> jsval \<Rightarrow> unit io" where
  "handle_git sh data =
     io_catch
       (io_bind (first_token (field data ''command'')) (\<lambda>gitCommand.
        io_bind (if gitCommand \<notin> set allowedCommands
                 then io_throw ''Git command not allowed'' else io_return ()) (\<lambda>_.
        io_bind (execAsync sh (''git '' @ js_to_string (field data ''command''))) (\<lambda>(stdout, stderr).
          send [(''action'', JStr ''git''),
                (''success'', JBool True),
                (''stdout'', JStr stdout),
                (''stderr'', JStr stderr)]))))
       (\<lambda>error.
          send [(''action'', JStr ''git''),
                (''success'', JBool False),
                (''error'', JStr error)])"

text \<open>\<^verbatim>\<open>stdout.trim().split('\n').filter(line => line.length > 0)\<close>\<close>

definition status_lines :: "string \<Rightarrow> string list" where
  "status_lines stdout = filter (\<lambda>line. length line > 0) (js_split CHR 0x0A (js_trim stdout))"

definition handle_gitStatus :: "shell \<Rightarrow> jsval \<Rightarrow> unit io" where
  "handle_gitStatus sh data =
     io_catch
       (io_bind (execAsync sh ''git status --porcelain'') (\<lambda>(stdout, stderr).
          let changes = status_lines stdout in
          send [(''action'', JStr ''gitStatus''),
                (''success'', JBool True),
                (''changes'', JNum (int (length changes))),
                (''files'', JArr (map JStr changes))]))
       (\<lambda>error.
          send [(''action'', JStr ''gitStatus''),
                (''success'', JBool True),
                (''changes'', JNum 0),
                (''files'', JArr [])])"

text \<open>The arrow function that parses one line of \<^verbatim>\<open>git-status\<close> (lines 434 to 444).\<close>

definition status_type :: "string \<Rightarrow> string" where
  "status_type status =
     (if js_includes status ''?'' then ''untracked''
      else if js_includes status ''A'' then ''added''
      else if js_includes status ''D'' then ''deleted''
      else if js_includes status ''R'' then ''renamed''
      else if js_includes status ''M'' then ''modified''
      else ''modified'')"

definition parse_status_line :: "string \<Rightarrow> jsval" where
  "parse_status_line line =
     (let status = take 2 line;
          file = drop 3 line
      in JObj [(''file'', JStr file), (''status'', JStr status), (''type'', JStr (status_type status))])"

definition handle_git_status :: "shell \<Rightarrow> jsval \<Rightarrow> unit io" where
  "handle_git_status sh data =
     io_catch
       (io_bind (execAsync sh ''git status --porcelain'') (\<lambda>(statusOutput, stderr).
          let statusLines = status_lines statusOutput;
              parsedChanges = map parse_status_line statusLines
          in send [(''action'', JStr ''git-status''),
                   (''success'', JBool True),
                   (''changes'', JArr parsedChanges)]))
       (\<lambda>error.
          send [(''action'', JStr ''git-status''),
                (''success'', JBool False),
                (''error'', JStr error),
                (''changes'', JArr [])])"

definition handle_git_diff :: "shell \<Rightarrow> jsval \<Rightarrow> unit io" where
  "handle_git_diff sh data =
     io_catch
       (let diffFile = field data ''file'' in
        io_bind (if \<not> truthy diffFile
                 then io_throw ''File path is required for git-diff'' else io_return ()) (\<lambda>_.
        io_bind (execAsync sh (''git diff -- '' @ json_text diffFile)) (\<lambda>(diffOutput, stderr).
          send [(''action'', JStr ''git-diff''),
                (''success'', JBool True),
                (''file'', diffFile),
                (''diff'', JStr diffOutput)])))
       (\<lambda>error.
          send [(''action'', JStr ''git-diff''),
                (''success'', JBool False),
                (''error'', JStr error),
                (''diff'', JStr [])])"

definition handle_git_commit :: "shell \<Rightarrow> jsval \<Rightarrow> unit io" where
  "handle_git_commit sh data =
     io_catch
       (let commitMsg = field data ''message'' in
        io_bind (if \<not> truthy commitMsg
                 then io_throw ''Commit message is required'' else io_return ()) (\<lambda>_.
        io_bind (execAsync sh ''git add -A'') (\<lambda>_.
        io_bind (execAsync sh (''git commit -m '' @ json_text commitMsg)) (\<lambda>(commitOutput, stderr).
          send [(''action'', JStr ''git-commit''),
                (''success'', JBool True),
                (''message'', commitMsg),
                (''output'', JStr commitOutput)]))))
       (\<lambda>error.
          send [(''action'', JStr ''git-commit''),
                (''success'', JBool False),
                (''error'', JStr error)])"

definition handle_git_push :: "shell \<Rightarrow> jsval \<Rightarrow> unit io" where
  "handle_git_push sh data =
     io_catch
       (io_bind (execAsync sh ''git push'') (\<lambda>(pushOutput, pushStderr).
          send [(''action'', JStr ''git-push''),
                (''success'', JBool True),
                (''output'', JStr (if pushOutput \<noteq> [] then pushOutput else pushStderr))]))
       (\<lambda>error.
          send [(''action'', JStr ''git-push''),
                (''success'', JBool False),
                (''error'', JStr error)])"

definition handle_git_pull_force :: "shell \<Rightarrow> jsval \<Rightarrow> unit io" where
  "handle_git_pull_force sh data =
     io_catch
       (io_bind (execAsync sh ''git fetch origin'') (\<lambda>_.
        io_bind (execAsync sh ''git rev-parse --abbrev-ref HEAD'') (\<lambda>(branchOutput, stderr).
          let currentBranch = js_trim branchOutput in
        io_bind (execAsync sh (''git reset --hard origin/'' @ currentBranch))
          (\<lambda>(resetOutput, resetStderr).
          send [(''action'', JStr ''git-pull-force''),
                (''success'', JBool True),
                (''branch'', JStr currentBranch),
                (''output'', JStr (if resetOutput \<noteq> [] then resetOutput else resetStderr))]))))
       (\<lambda>error.
          send [(''action'', JStr ''git-pull-force''),
                (''success'', JBool False),
                (''error'', JStr error)])"

text \<open>
  \<^verbatim>\<open>exec\<close>: \<^verbatim>\<open>pattern.test\<close> converts its argument to a string, \<^verbatim>\<open>execAsync\<close> accepts a
  string only.
\<close>

definition handle_exec :: "shell \<Rightarrow> jsval \<Rightarrow> unit io" where
  "handle_exec sh data =
     io_catch
       (let execCommand = field data ''command'' in
        io_bind (if \<not> truthy execCommand
                 then io_throw ''Command is required'' else io_return ()) (\<lambda>_.
          let isAllowed = list_ex (\<lambda>pattern. rx_test pattern (js_to_string execCommand))
                            allowedPatterns in
        io_bind (if \<not> isAllowed
                 then io_throw ''Command not allowed for security reasons''
                 else io_return ()) (\<lambda>_.
        io_bind (arg_string ''command'' execCommand) (\<lambda>cmd.
        io_bind (execAsync sh cmd) (\<lambda>(execOutput, execStderr).
          send [(''action'', JStr ''exec''),
                (''success'', JBool True),
                (''command'', execCommand),
                (''output'', JStr (if execOutput \<noteq> [] then execOutput else execStderr))])))))
       (\<lambda>error.
          send [(''action'', JStr ''exec''),
                (''success'', JBool False),
                (''command'', field data ''command''),
                (''error'', JStr error)])"

section \<open>The action dispatcher\<close>

text \<open>
  The \<^verbatim>\<open>message\<close> listener (lines 165 to 600). The raw message is given as the
  outcome of \<^verbatim>\<open>JSON.parse\<close>: a SyntaxError with its message, or the decoded value.
  Reading a property of \<^verbatim>\<open>null\<close> throws; every other decoded value can be read.
\<close>

datatype inbound = Malformed string | Parsed jsval

definition dispatch :: "shell \<Rightarrow> jsval \<Rightarrow> unit io" where
  "dispatch sh data =
     (let action = field data ''action'' in
      if action = JStr ''read'' then handle_read data
      else if action = JStr ''write'' then handle_write data
      else if action = JStr ''list'' then handle_list data
      else if action = JStr ''delete'' then handle_delete data
      else if action = JStr ''rename'' then handle_rename data
      else if action = JStr ''create'' then handle_create data
      else if action = JStr ''mkdir'' then handle_mkdir data
      else if action = JStr ''git'' then handle_git sh data
      else if action = JStr ''gitStatus'' then handle_gitStatus sh data
      else if action = JStr ''git-status'' then handle_git_status sh data
      else if action = JStr ''git-diff'' then handle_git_diff sh data
      else if action = JStr ''git-commit'' then handle_git_commit sh data
      else if action = JStr ''git-push'' then handle_git_push sh data
      else if action = JStr ''git-pull-force'' then handle_git_pull_force sh data
      else if action = JStr ''exec'' then handle_exec sh data
      else io_return ())"

definition on_message :: "shell \<Rightarrow> inbound \<Rightarrow> unit io" where
  "on_message sh message =
     io_catch
       (case message of
          Malformed syntaxError \<Rightarrow> io_throw syntaxError
        | Parsed data \<Rightarrow>
            if data = JNull \<or> data = JUndefined
            then io_throw ''Cannot read properties of null''
            else if field data ''action'' = JStr ''ping''
            then send [(''action'', JStr ''pong'')]
            else
              io_bind
                (if truthy (field data ''path'')
                 then io_bind (checkPathSafe (field data ''path'')) (\<lambda>safe. io_return (\<not> safe))
                 else io_return False) (\<lambda>blocked.
              if blocked
              then send [(''action'', field data ''action''),
                         (''path'', field data ''path''),
                         (''error'', JStr ''Invalid file path''),
                         (''success'', JBool False)]
              else dispatch sh data))
       (\<lambda>error.
          send [(''action'', JStr ''error''), (''error'', JStr error), (''success'', JBool False)])"

section \<open>Connections\<close>

text \<open>
  \<^verbatim>\<open>verifyToken\<close> and \<^verbatim>\<open>authenticateConnection\<close> (lines 42 to 79). The library call
  \<^verbatim>\<open>jwt.verify(token, JWT_PUBLIC_KEY, { algorithms: ['RS256'] })\<close> is a parameter: it
  throws with a message or returns the decoded payload. The upgrade request is
  given as the outcome of parsing its URL: a failure, or the query parameters.
\<close>

type_synonym verifier = "string \<Rightarrow> string + jsval"

datatype upgrade = BadUrl string | Query "(string \<times> string) list"

record verdict =
  valid :: bool
  payload :: jsval
  error :: string

definition verifyToken :: "verifier \<Rightarrow> string \<Rightarrow> verdict" where
  "verifyToken jwt_verify token =
     (case jwt_verify token of
        Inr decoded \<Rightarrow> \<lparr>valid = True, payload = decoded, error = []\<rparr>
      | Inl message \<Rightarrow> \<lparr>valid = False, payload = JUndefined, error = message\<rparr>)"

record identity =
  id_userId :: jsval
  id_username :: jsval
  id_repoId :: jsval
  id_repoName :: jsval

definition authenticateConnection :: "verifier \<Rightarrow> upgrade \<Rightarrow> identity option" where
  "authenticateConnection jwt_verify req =
     (case req of
        BadUrl message \<Rightarrow> None
      | Query searchParams \<Rightarrow>
          (case map_of searchParams ''token'' of
             None \<Rightarrow> None
           | Some token \<Rightarrow>
               if token = [] then None
               else
                 let result = verifyToken jwt_verify token in
                 if \<not> valid result then None
                 else if payload result = JNull \<or> payload result = JUndefined then None
                 else Some \<lparr>id_userId = field (payload result) ''userId'',
                            id_username = (if truthy (field (payload result) ''username'')
                                           then field (payload result) ''username''
                                           else JStr ''unknown''),
                            id_repoId = field (payload result) ''repoId'',
                            id_repoName = field (payload result) ''repoName''\<rparr>))"

text \<open>
  The \<^verbatim>\<open>connection\<close> listener (lines 128 to 163) on a fresh socket: either the socket
  is closed with code 1008 and the listener returns before it registers anything,
  or the identity is stored and the \<^verbatim>\<open>message\<close> listener is registered. The
  heartbeat timer is not modelled.
\<close>

definition fresh_socket :: "fsnode \<Rightarrow> state" where
  "fresh_socket cwd =
     \<lparr>root = cwd, trace = [], sent = [], closed = None, listening = False,
      userId = JUndefined, username = JUndefined, repoId = JUndefined, repoName = JUndefined\<rparr>"

definition on_connection :: "verifier \<Rightarrow> upgrade \<Rightarrow> state \<Rightarrow> state" where
  "on_connection jwt_verify req ws =
     (case authenticateConnection jwt_verify req of
        None \<Rightarrow> ws\<lparr>closed := Some (1008, ''Unauthorized'')\<rparr>
      | Some authData \<Rightarrow>
          ws\<lparr>userId := id_userId authData, username := id_username authData,
             repoId := id_repoId authData, repoName := id_repoName authData,
             listening := True\<rparr>)"

text \<open>
  A message that arrives on a socket runs the \<^verbatim>\<open>message\<close> listener when one is
  registered; without a listener nothing runs.
\<close>

definition deliver :: "shell \<Rightarrow> inbound \<Rightarrow> state \<Rightarrow> state" where
  "deliver sh message ws = (if listening ws then snd (on_message sh message ws) else ws)"

definition deliver_all :: "shell \<Rightarrow> inbound list \<Rightarrow> state \<Rightarrow> state" where
  "deliver_all sh messages ws = fold (deliver sh) messages ws"

section \<open>Concrete environments for the examples\<close>

text \<open>
  A subprocess runner under which every command succeeds with no output, one under
  which every command fails, and a small working directory.
\<close>

definition quiet_shell :: shell where
  "quiet_shell cmd cwd = (Inr ([], []), cwd)"

definition sample_tree :: fsnode where
  "sample_tree =
     Dir True
       [(''src'', Dir True [(''pages'', Dir True [(''index.astro'', File ''<h1>x</h1>'')]),
                           (''.cache'', File []),
                           (''app.ts'', File [])]),
        (''.git'', Dir True [(''config'', File [])]),
        (''.astro'', Dir True [(''types.d.ts'', File [])]),
        (''.env'', File ''SECRET''),
        (''node_modules'', Dir True [(''ws'', Dir True [])]),
        (''dist'', Dir True []),
        (''locked'', Dir False [(''hidden.txt'', File [])]),
        (''README.md'', File ''hello'')]"

definition failing_shell :: shell where
  "failing_shell cmd cwd = (Inl ''Command failed'', cwd)"

text \<open>A verifier that rejects every token, and some inbound messages.\<close>

definition reject_all :: verifier where
  "reject_all token = Inl ''invalid signature''"

definition sample_messages :: "inbound list" where
  "sample_messages =
     [Parsed (JObj [(''action'', JStr ''ping'')]),
      Parsed (JObj [(''action'', JStr ''write''), (''path'', JStr ''x.txt''), (''content'', JStr ''x'')]),
      Malformed ''Unexpected token'']"

text \<open>
  The first whitespace-delimited token of a command, in the words of the
  specification (the code splits at the space character only), and a command in
  which a tab follows the git subcommand.
\<close>

definition spec_first_whitespace_token :: "string \<Rightarrow> string" where
  "spec_first_whitespace_token s = takeWhile (\<lambda>c. \<not> is_ws1 c) (dropWhile is_ws1 s)"

definition tab_command :: string where
  "tab_command = ''status'' @ [CHR 0x09] @ ''--short''"

text \<open>A porcelain status output, and a subprocess runner that prints it.\<close>

definition porcelain_output :: string where
  "porcelain_output =
     ''?? new.txt'' @ [CHR 0x0A] @ ''A  added.txt'' @ [CHR 0x0A] @ '' D gone.txt'' @ [CHR 0x0A]
     @ ''R  old.txt -> new.txt'' @ [CHR 0x0A] @ '' M app.ts'' @ [CHR 0x0A]"

definition status_shell :: shell where
  "status_shell cmd cwd = (Inr (porcelain_output, []), cwd)"

text \<open>A binary payload and the two requests of a Base64 round trip.\<close>

definition sample_bytes :: string where
  "sample_bytes = [CHR 0x89, CHR ''P'', CHR ''N'', CHR ''G'', CHR 0x00, CHR 0xFF, CHR 0x0A]"

definition b64_write_request :: jsval where
  "b64_write_request =
     JObj [(''action'', JStr ''write''), (''path'', JStr ''public/img/logo.png''),
           (''content'', JStr (base64_encode sample_bytes)), (''encoding'', JStr ''base64'')]"

definition b64_read_request :: jsval where
  "b64_read_request =
     JObj [(''action'', JStr ''read''), (''path'', JStr ''public/img/logo.png''),
           (''encoding'', JStr ''base64'')]"

section \<open>Predicates on handlers\<close>

text \<open>
  \<open>sends_only P m\<close>: whatever the state, the computation \<open>m\<close> only appends messages
  to those already sent, and each of them satisfies \<open>P\<close>. \<open>response_shape data m\<close>: the
  message \<open>m\<close> has a boolean \<^verbatim>\<open>success\<close>, an \<^verbatim>\<open>error\<close> string when \<^verbatim>\<open>success\<close> is false, and
  an \<^verbatim>\<open>action\<close> unless it is the rejection of a path in a request \<open>data\<close> that has no
  action. \<open>pong\<close> is the reply to \<^verbatim>\<open>ping\<close>.
\<close>

definition sends_only :: "(jsval \<Rightarrow> bool) \<Rightarrow> 'a io \<Rightarrow> bool" where
  "sends_only P m =
     (\<forall>s. \<exists>ms. sent (snd (m s)) = sent s @ ms \<and> list_all P ms)"

definition response_shape :: "jsval \<Rightarrow> jsval \<Rightarrow> bool" where
  "response_shape data m =
     ((\<exists>b. field m ''success'' = JBool b)
      \<and> (field m ''success'' = JBool False \<longrightarrow> (\<exists>e. field m ''error'' = JStr e))
      \<and> (field m ''action'' = JUndefined \<longrightarrow>
            field data ''action'' = JUndefined \<and> field m ''error'' = JStr ''Invalid file path''))"

definition pong :: jsval where
  "pong = JObj [(''action'', JStr ''pong'')]"

text \<open>A request with a traversal and no action.\<close>

definition traversal_without_action :: jsval where
  "traversal_without_action = JObj [(''path'', JStr ''../../etc/passwd'')]"

text \<open>Requests that carry protected, empty or traversing paths, and a one-file directory.\<close>

definition diff_protected_request :: jsval where
  "diff_protected_request = JObj [(''action'', JStr ''git-diff''), (''file'', JStr ''.git/config'')]"

definition list_empty_path_request :: jsval where
  "list_empty_path_request = JObj [(''action'', JStr ''list''), (''path'', JStr [])]"

definition write_traversal_request :: jsval where
  "write_traversal_request =
     JObj [(''action'', JStr ''write''), (''path'', JStr ''../../etc/passwd''),
           (''content'', JStr ''root::0:0::/:/bin/sh'')]"

definition rename_into_git_request :: jsval where
  "rename_into_git_request =
     JObj [(''action'', JStr ''rename''), (''oldPath'', JStr ''README.md''),
           (''newPath'', JStr ''.git/hooks/pre-commit'')]"

definition one_file_tree :: fsnode where
  "one_file_tree = Dir True [(''index.html'', File ''<html></html>'')]"

section \<open>Properties of the string primitives\<close>

lemma startsWith_prefix: "startsWith s p = prefix p s"
  by (induction s p rule: startsWith.induct) auto

lemma includes_sublist: "js_includes s p = sublist p s"
proof (induction s)
  case Nil
  then show ?case by simp
next
  case (Cons c cs)
  then show ?case
    by (simp add: startsWith_prefix sublist_Cons_right)
qed

lemma length_replace_backslashes [simp]:
  "length (replace_backslashes s) = length s"
  by (simp add: replace_backslashes_def)

lemma replace_backslashes_Nil [simp]: "replace_backslashes [] = []"
  by (simp add: replace_backslashes_def)

lemma replace_backslashes_Cons [simp]:
  "replace_backslashes (c # cs) =
     (if c = backslash then CHR ''/'' else c) # replace_backslashes cs"
  by (simp add: replace_backslashes_def)

lemma targets_git_first_segment:
  "targets_git n = (first_segment n = ''.git'')"
proof -
  have "prefix ''.git/'' n \<or> n = ''.git'' \<longleftrightarrow> takeWhile (\<lambda>c. c \<noteq> CHR ''/'') n = ''.git''"
  proof
    assume "prefix ''.git/'' n \<or> n = ''.git''"
    then show "takeWhile (\<lambda>c. c \<noteq> CHR ''/'') n = ''.git''"
      by (auto simp: prefix_def)
  next
    assume h: "takeWhile (\<lambda>c. c \<noteq> CHR ''/'') n = ''.git''"
    have split: "n = ''.git'' @ dropWhile (\<lambda>c. c \<noteq> CHR ''/'') n"
      using takeWhile_dropWhile_id [of "\<lambda>c. c \<noteq> CHR ''/''" n] h by simp
    show "prefix ''.git/'' n \<or> n = ''.git''"
    proof (cases "dropWhile (\<lambda>c. c \<noteq> CHR ''/'') n")
      case Nil
      with split show ?thesis by simp
    next
      case (Cons d ds)
      have "d = CHR ''/''"
        using hd_dropWhile [of "\<lambda>c. c \<noteq> CHR ''/''" n] Cons by simp
      with split Cons have "n = ''.git/'' @ ds" by simp
      then show ?thesis by (simp add: prefix_def)
    qed
  qed
  then show ?thesis
    by (simp add: targets_git_def first_segment_def startsWith_prefix)
qed

lemma targets_node_modules_first_segment:
  "targets_node_modules n = (first_segment n = ''node_modules'')"
proof -
  have "prefix ''node_modules/'' n \<or> n = ''node_modules''
        \<longleftrightarrow> takeWhile (\<lambda>c. c \<noteq> CHR ''/'') n = ''node_modules''"
  proof
    assume "prefix ''node_modules/'' n \<or> n = ''node_modules''"
    then show "takeWhile (\<lambda>c. c \<noteq> CHR ''/'') n = ''node_modules''"
      by (auto simp: prefix_def)
  next
    assume h: "takeWhile (\<lambda>c. c \<noteq> CHR ''/'') n = ''node_modules''"
    have split: "n = ''node_modules'' @ dropWhile (\<lambda>c. c \<noteq> CHR ''/'') n"
      using takeWhile_dropWhile_id [of "\<lambda>c. c \<noteq> CHR ''/''" n] h by simp
    show "prefix ''node_modules/'' n \<or> n = ''node_modules''"
    proof (cases "dropWhile (\<lambda>c. c \<noteq> CHR ''/'') n")
      case Nil
      with split show ?thesis by simp
    next
      case (Cons d ds)
      have "d = CHR ''/''"
        using hd_dropWhile [of "\<lambda>c. c \<noteq> CHR ''/''" n] Cons by simp
      with split Cons have "n = ''node_modules/'' @ ds" by simp
      then show ?thesis by (simp add: prefix_def)
    qed
  qed
  then show ?thesis
    by (simp add: targets_node_modules_def first_segment_def startsWith_prefix)
qed

lemma is_ascii_letter_set:
  "is_ascii_letter c = (c \<in> set (''ABCDEFGHIJKLMNOPQRSTUVWXYZ'' @ ''abcdefghijklmnopqrstuvwxyz''))"
  by (cases c) (simp add: is_ascii_letter_def Let_def)

lemma drive_letter_prefix_iff:
  "drive_letter_prefix n = (\<exists>a r. n = a # CHR '':'' # r \<and> is_ascii_letter a)"
  by (cases n rule: drive_letter_prefix.cases) auto

lemma first_segment_prefix: "prefix (first_segment n) n"
  unfolding first_segment_def prefix_def
  by (metis takeWhile_dropWhile_id)

lemma prefix_git_safe:
  assumes "prefix ''.git'' (first_segment n)" and "first_segment n \<noteq> ''.git''"
  shows "\<not> is_absolute n" and "n \<noteq> ''..''" and "\<not> targets_git n" and "\<not> targets_node_modules n"
proof -
  from assms(1) first_segment_prefix [of n] have "prefix ''.git'' n"
    using prefix_order.trans by blast
  then obtain r where n: "n = ''.git'' @ r" by (auto simp: prefix_def)
  show "\<not> is_absolute n" by (simp add: n is_absolute_def is_ascii_letter_def)
  show "n \<noteq> ''..''" by (simp add: n)
  show "\<not> targets_git n" using assms(2) by (simp add: targets_git_first_segment)
  show "\<not> targets_node_modules n" using assms(1)
    by (auto simp add: targets_node_modules_first_segment prefix_def)
qed

lemma prefix_node_modules_safe:
  assumes "prefix ''node_modules'' (first_segment n)" and "first_segment n \<noteq> ''node_modules''"
  shows "\<not> is_absolute n" and "n \<noteq> ''..''" and "\<not> targets_git n" and "\<not> targets_node_modules n"
proof -
  from assms(1) first_segment_prefix [of n] have "prefix ''node_modules'' n"
    using prefix_order.trans by blast
  then obtain r where n: "n = ''node_modules'' @ r" by (auto simp: prefix_def)
  show "\<not> is_absolute n" by (simp add: n is_absolute_def is_ascii_letter_def)
  show "n \<noteq> ''..''" by (simp add: n)
  show "\<not> targets_node_modules n" using assms(2) by (simp add: targets_node_modules_first_segment)
  show "\<not> targets_git n" using assms(1)
    by (auto simp add: targets_git_first_segment prefix_def)
qed

section \<open>Claims about the path safety validator\<close>

text \<open>
  Claim C2, as amended. The validator returns \<^verbatim>\<open>false\<close> for an absent or empty path,
  and for a string \<open>p\<close> it rejects exactly when, after every backslash of \<open>p\<close> has
  been replaced by a forward slash, the result starts with a slash, starts with an
  ASCII letter and a colon, contains \<^verbatim>\<open>../\<close> or \<^verbatim>\<open>/..\<close> anywhere, is \<^verbatim>\<open>..\<close>, is
  \<^verbatim>\<open>.git\<close> or \<^verbatim>\<open>node_modules\<close>, or starts with \<^verbatim>\<open>.git/\<close> or \<^verbatim>\<open>node_modules/\<close>. Every
  other string is accepted; the validator returns a boolean only and leaves the
  path as it is. The two directory names are matched at the start of the path
  only, not anywhere inside it.
\<close>

theorem isPathSafe_rejects_exactly:
  "isPathSafe JUndefined = Inr False \<and>
   isPathSafe JNull = Inr False \<and>
   isPathSafe (JStr p) =
     Inr (\<not> (p = []
        \<or> prefix ''/'' (replace_backslashes p)
        \<or> (\<exists>a r. replace_backslashes p = a # CHR '':'' # r
               \<and> a \<in> set (''ABCDEFGHIJKLMNOPQRSTUVWXYZ'' @ ''abcdefghijklmnopqrstuvwxyz''))
        \<or> sublist ''../'' (replace_backslashes p)
        \<or> sublist ''/..'' (replace_backslashes p)
        \<or> replace_backslashes p = ''..''
        \<or> replace_backslashes p = ''.git''
        \<or> prefix ''.git/'' (replace_backslashes p)
        \<or> replace_backslashes p = ''node_modules''
        \<or> prefix ''node_modules/'' (replace_backslashes p)))"
proof -
  have abs: "is_absolute n =
      (prefix ''/'' n \<or> (\<exists>a r. n = a # CHR '':'' # r
               \<and> a \<in> set (''ABCDEFGHIJKLMNOPQRSTUVWXYZ'' @ ''abcdefghijklmnopqrstuvwxyz'')))" for n
    unfolding is_absolute_def startsWith_prefix drive_letter_prefix_iff is_ascii_letter_set ..
  have trav: "has_traversal n = (sublist ''../'' n \<or> sublist ''/..'' n \<or> n = ''..'')" for n
    unfolding has_traversal_def includes_sublist ..
  have git: "targets_git n = (prefix ''.git/'' n \<or> n = ''.git'')" for n
    unfolding targets_git_def startsWith_prefix ..
  have nm: "targets_node_modules n = (prefix ''node_modules/'' n \<or> n = ''node_modules'')" for n
    unfolding targets_node_modules_def startsWith_prefix ..
  have "isPathSafe_string p =
      (\<not> (is_absolute (replace_backslashes p) \<or> has_traversal (replace_backslashes p)
          \<or> targets_git (replace_backslashes p) \<or> targets_node_modules (replace_backslashes p)))"
    by (simp add: isPathSafe_string_def Let_def)
  then show ?thesis
    unfolding abs trav git nm by auto
qed

theorem isPathSafe_rejects_exactly_witness:
  "isPathSafe (JStr ''src/pages/index.astro'') = Inr True
   \<and> \<not> sublist ''../'' ''src/pages/index.astro''
   \<and> \<not> prefix ''.git/'' ''src/pages/index.astro''
   \<and> isPathSafe (JStr ''a/../b'') = Inr False"
proof -
  have n: "replace_backslashes ''src/pages/index.astro'' = ''src/pages/index.astro''"
    by code_simp
  have ev: "isPathSafe (JStr ''src/pages/index.astro'') = Inr True" by code_simp
  have n2: "replace_backslashes ''a/../b'' = ''a/../b''" by code_simp
  have s2: "sublist ''../'' ''a/../b''" by code_simp
  from isPathSafe_rejects_exactly [of "''src/pages/index.astro''"] ev
  have a: "\<not> sublist ''../'' ''src/pages/index.astro'' \<and> \<not> prefix ''.git/'' ''src/pages/index.astro''"
    unfolding n by simp
  from isPathSafe_rejects_exactly [of "''a/../b''"] s2
  have b: "isPathSafe (JStr ''a/../b'') = Inr False"
    unfolding n2 by simp
  from ev a b show ?thesis by simp
qed

text \<open>
  Claim C2 as stated says that every path containing \<^verbatim>\<open>.git/\<close> or \<^verbatim>\<open>node_modules/\<close>
  anywhere is rejected. A nested occurrence is accepted.
\<close>

theorem isPathSafe_nested_protected_counterexample:
  "sublist ''.git/'' ''src/.git/config''
   \<and> isPathSafe (JStr ''src/.git/config'') = Inr True
   \<and> sublist ''node_modules/'' ''packages/node_modules/left-pad/index.js''
   \<and> isPathSafe (JStr ''packages/node_modules/left-pad/index.js'') = Inr True"
  by code_simp

text \<open>
  Claim C10. The protected-directory rule looks at the whole first segment:
  \<^verbatim>\<open>.gitignore\<close>, \<^verbatim>\<open>.github/workflows/ci.yml\<close> and \<^verbatim>\<open>node_modules2\<close> are accepted,
  \<^verbatim>\<open>.git\<close>, \<^verbatim>\<open>.git/config\<close>, \<^verbatim>\<open>node_modules\<close> and \<^verbatim>\<open>node_modules/x\<close> are rejected.
  In general a path whose first segment begins with \<^verbatim>\<open>.git\<close> or \<^verbatim>\<open>node_modules\<close>
  without being that name is rejected by none of the rules for empty paths,
  absolute paths and protected directories: it is accepted unless it contains a
  parent-directory traversal.
\<close>

theorem isPathSafe_protected_name_is_exact:
  "isPathSafe (JStr ''.gitignore'') = Inr True \<and>
   isPathSafe (JStr ''.github/workflows/ci.yml'') = Inr True \<and>
   isPathSafe (JStr ''node_modules2'') = Inr True \<and>
   isPathSafe (JStr ''.git'') = Inr False \<and>
   isPathSafe (JStr ''.git/config'') = Inr False \<and>
   isPathSafe (JStr ''node_modules'') = Inr False \<and>
   isPathSafe (JStr ''node_modules/x'') = Inr False \<and>
   (\<forall>p. (prefix ''.git'' (first_segment (replace_backslashes p))
           \<and> first_segment (replace_backslashes p) \<noteq> ''.git'')
        \<or> (prefix ''node_modules'' (first_segment (replace_backslashes p))
           \<and> first_segment (replace_backslashes p) \<noteq> ''node_modules'')
      \<longrightarrow> isPathSafe (JStr p) =
            Inr (\<not> sublist ''../'' (replace_backslashes p)
                 \<and> \<not> sublist ''/..'' (replace_backslashes p)))"
proof -
  have c1: "isPathSafe (JStr ''.gitignore'') = Inr True" by code_simp
  have c2: "isPathSafe (JStr ''.github/workflows/ci.yml'') = Inr True" by code_simp
  have c3: "isPathSafe (JStr ''node_modules2'') = Inr True" by code_simp
  have c4: "isPathSafe (JStr ''.git'') = Inr False" by code_simp
  have c5: "isPathSafe (JStr ''.git/config'') = Inr False" by code_simp
  have c6: "isPathSafe (JStr ''node_modules'') = Inr False" by code_simp
  have c7: "isPathSafe (JStr ''node_modules/x'') = Inr False" by code_simp
  have gen: "isPathSafe (JStr p) =
            Inr (\<not> sublist ''../'' (replace_backslashes p)
                 \<and> \<not> sublist ''/..'' (replace_backslashes p))"
    if h: "(prefix ''.git'' (first_segment (replace_backslashes p))
           \<and> first_segment (replace_backslashes p) \<noteq> ''.git'')
        \<or> (prefix ''node_modules'' (first_segment (replace_backslashes p))
           \<and> first_segment (replace_backslashes p) \<noteq> ''node_modules'')" for p
  proof -
    let ?n = "replace_backslashes p"
    from h have facts: "\<not> is_absolute ?n \<and> ?n \<noteq> ''..'' \<and> \<not> targets_git ?n \<and> \<not> targets_node_modules ?n"
      using prefix_git_safe [of ?n] prefix_node_modules_safe [of ?n] by blast
    from h have "first_segment ?n \<noteq> []" by auto
    then have "?n \<noteq> []" by (auto simp: first_segment_def)
    then have ne: "p \<noteq> []" by auto
    show ?thesis
      using facts ne
      by (simp add: isPathSafe_string_def Let_def has_traversal_def includes_sublist)
  qed
  from c1 c2 c3 c4 c5 c6 c7 gen show ?thesis by blast
qed

theorem isPathSafe_protected_name_is_exact_witness:
  "prefix ''.git'' (first_segment (replace_backslashes ''.github/workflows/ci.yml''))
   \<and> first_segment (replace_backslashes ''.github/workflows/ci.yml'') \<noteq> ''.git''
   \<and> isPathSafe (JStr ''.github/workflows/ci.yml'') =
       Inr (\<not> sublist ''../'' (replace_backslashes ''.github/workflows/ci.yml'')
            \<and> \<not> sublist ''/..'' (replace_backslashes ''.github/workflows/ci.yml''))"
proof -
  have a: "prefix ''.git'' (first_segment (replace_backslashes ''.github/workflows/ci.yml''))
   \<and> first_segment (replace_backslashes ''.github/workflows/ci.yml'') \<noteq> ''.git''"
    by code_simp
  with isPathSafe_protected_name_is_exact show ?thesis by blast
qed

text \<open>
  Claim C10 as stated accepts every path whose first segment begins with a
  protected name without being it. Such a path is still rejected when it contains
  a traversal.
\<close>

theorem isPathSafe_prefix_name_traversal_counterexample:
  "prefix ''.git'' (first_segment (replace_backslashes ''.gitignore/../.git/config''))
   \<and> first_segment (replace_backslashes ''.gitignore/../.git/config'') \<noteq> ''.git''
   \<and> isPathSafe (JStr ''.gitignore/../.git/config'') = Inr False"
  by code_simp

section \<open>Properties of the effect combinators and the dispatcher\<close>

lemma io_simps:
  "io_return x s = (Inr x, s)"
  "io_throw e s = (Inl e, s)"
  "io_bind m f s = (case m s of (Inl e, s') \<Rightarrow> (Inl e, s') | (Inr x, s') \<Rightarrow> f x s')"
  "io_catch m h s = (case m s of (Inl e, s') \<Rightarrow> h e s' | (Inr x, s') \<Rightarrow> (Inr x, s'))"
  "send members s = (Inr (), s\<lparr>sent := sent s @ [stringify_object members]\<rparr>)"
  "io_read ef g s = (g (root s), s\<lparr>trace := trace s @ [ef]\<rparr>)"
  by (simp_all add: io_return_def io_throw_def io_bind_def io_catch_def send_def io_read_def)

lemma catch_send_returns: "fst (io_catch m (\<lambda>e. send (g e)) s) = Inr ()"
  by (simp add: io_simps split: prod.splits sum.splits)

lemma dispatch_returns: "fst (dispatch sh data s) = Inr ()"
  unfolding dispatch_def Let_def
  by (simp add: catch_send_returns handle_read_def handle_write_def handle_list_def
      handle_delete_def handle_rename_def handle_create_def handle_mkdir_def handle_git_def
      handle_gitStatus_def handle_git_status_def handle_git_diff_def handle_git_commit_def
      handle_git_push_def handle_git_pull_force_def handle_exec_def io_return_def)

lemma on_message_dispatch:
  assumes "data \<noteq> JNull" and "data \<noteq> JUndefined"
    and "field data ''action'' \<noteq> JStr ''ping''"
    and "\<not> truthy (field data ''path'') \<or> isPathSafe (field data ''path'') = Inr True"
  shows "on_message sh (Parsed data) s = dispatch sh data s"
proof -
  obtain s' where d: "dispatch sh data s = (Inr (), s')"
    using dispatch_returns [of sh data s] by (cases "dispatch sh data s") auto
  from assms d show ?thesis
    by (auto simp: on_message_def io_simps checkPathSafe_def)
qed

lemma on_message_blocked:
  assumes "field data ''action'' \<noteq> JStr ''ping''"
    and "truthy (field data ''path'')" and "isPathSafe (field data ''path'') = Inr False"
  shows "on_message sh (Parsed data) s =
     (Inr (), s\<lparr>sent := sent s @ [stringify_object
         [(''action'', field data ''action''), (''path'', field data ''path''),
          (''error'', JStr ''Invalid file path''), (''success'', JBool False)]]\<rparr>)"
proof -
  from assms(2) have "data \<noteq> JNull" "data \<noteq> JUndefined" by auto
  with assms show ?thesis
    by (simp add: on_message_def io_simps checkPathSafe_def)
qed

section \<open>Properties of the directory listing\<close>

lemma listDirectory_readdir:
  "listDirectory d b = (case fs_readdir d of Inl err \<Rightarrow> [] | Inr es \<Rightarrow> listEntries es b [])"
  by (cases "(d, b)" rule: listDirectory.cases) auto

lemma listEntries_concat:
  "listEntries es base files =
     files @ concat (map (\<lambda>(name, node).
        if (prefix ''.'' name \<and> name \<noteq> ''.astro'' \<and> name \<noteq> ''.devcontainer'')
           \<or> name = ''node_modules'' \<or> name = ''dist'' \<or> name = ''.git''
        then []
        else dirent name (if base = [] then name else base @ ''/'' @ name) (isDirectory node)
             # (if isDirectory node
                then listDirectory (Some node) (if base = [] then name else base @ ''/'' @ name)
                else [])) es)"
proof (induction es arbitrary: files)
  case Nil
  then show ?case by simp
next
  case (Cons e es)
  obtain name node where e: "e = (name, node)" by (cases e)
  show ?case
    unfolding e
    by (simp add: Cons.IH startsWith_prefix Let_def del: listDirectory.simps)
qed

lemma handle_list_failure:
  assumes "field data ''path'' = JStr p"
    and "fs_readdir (lookup (segments p) (root s)) = Inl e"
  shows "handle_list data s =
     (Inr (), s\<lparr>trace := trace s @ [Readdir (if p = ''.'' then [] else p)],
               sent := sent s @ [JObj [(''action'', JStr ''list''), (''path'', JStr p),
                                       (''files'', JArr []), (''success'', JBool True)]]\<rparr>)"
proof -
  have seg: "segments ''.'' = []" by (simp add: segments_def)
  have "listDirectory (lookup (segments p) (root s)) b = []" for b
    using assms(2) by (simp add: listDirectory_readdir)
  with assms(1) seg show ?thesis
    by (cases "p = ''.''") (simp_all add: handle_list_def io_simps stringify_object_def segments_def)
qed

section \<open>Claims about the directory listing\<close>

text \<open>
  Claim C9. The listing of a readable directory is the concatenation, in
  directory-entry order, of what each entry contributes: nothing for an entry
  whose name starts with a dot and is neither \<^verbatim>\<open>.astro\<close> nor \<^verbatim>\<open>.devcontainer\<close>, nothing
  for \<^verbatim>\<open>node_modules\<close>, \<^verbatim>\<open>dist\<close> and \<^verbatim>\<open>.git\<close>, and otherwise the entry itself followed,
  for a directory, by the listing of that directory (depth first, the
  subdirectory's own entry immediately before its children). When \<^verbatim>\<open>readdir\<close>
  fails the listing is empty, and a \<^verbatim>\<open>list\<close> request for such a path is answered
  with \<^verbatim>\<open>success: true\<close> and no files.
\<close>

theorem listDirectory_skips_and_order:
  "listDirectory (Some (Dir True entries)) base =
     concat (map (\<lambda>(name, node).
        if (prefix ''.'' name \<and> name \<noteq> ''.astro'' \<and> name \<noteq> ''.devcontainer'')
           \<or> name = ''node_modules'' \<or> name = ''dist'' \<or> name = ''.git''
        then []
        else dirent name (if base = [] then name else base @ ''/'' @ name) (isDirectory node)
             # (if isDirectory node
                then listDirectory (Some node) (if base = [] then name else base @ ''/'' @ name)
                else [])) entries)
   \<and> (\<forall>dir e. fs_readdir dir = Inl e \<longrightarrow> listDirectory dir base = [])
   \<and> (\<forall>data p e (s::state).
         field data ''action'' = JStr ''list'' \<and> field data ''path'' = JStr p
         \<and> isPathSafe (JStr p) = Inr True
         \<and> fs_readdir (lookup (segments p) (root s)) = Inl e
       \<longrightarrow> sent (snd (on_message sh (Parsed data) s)) =
             sent s @ [JObj [(''action'', JStr ''list''), (''path'', JStr p),
                             (''files'', JArr []), (''success'', JBool True)]])"
proof (intro conjI allI impI)
  show "listDirectory (Some (Dir True entries)) base =
     concat (map (\<lambda>(name, node).
        if (prefix ''.'' name \<and> name \<noteq> ''.astro'' \<and> name \<noteq> ''.devcontainer'')
           \<or> name = ''node_modules'' \<or> name = ''dist'' \<or> name = ''.git''
        then []
        else dirent name (if base = [] then name else base @ ''/'' @ name) (isDirectory node)
             # (if isDirectory node
                then listDirectory (Some node) (if base = [] then name else base @ ''/'' @ name)
                else [])) entries)"
    using listEntries_concat [of entries base "[]"] by simp
next
  fix dir e assume "fs_readdir dir = Inl e"
  then show "listDirectory dir base = []" by (simp add: listDirectory_readdir)
next
  fix data p e and s :: state
  assume h: "field data ''action'' = JStr ''list'' \<and> field data ''path'' = JStr p
         \<and> isPathSafe (JStr p) = Inr True
         \<and> fs_readdir (lookup (segments p) (root s)) = Inl e"
  then have obj: "data \<noteq> JNull" "data \<noteq> JUndefined" by auto
  from h have "on_message sh (Parsed data) s = dispatch sh data s"
    using on_message_dispatch [OF obj, of sh s] by simp
  also from h have "\<dots> = handle_list data s" by (simp add: dispatch_def)
  finally show "sent (snd (on_message sh (Parsed data) s)) =
             sent s @ [JObj [(''action'', JStr ''list''), (''path'', JStr p),
                             (''files'', JArr []), (''success'', JBool True)]]"
    using h handle_list_failure [of data p s e] by simp
qed

theorem listDirectory_skips_and_order_witness:
  "listDirectory (Some sample_tree) [] =
     [dirent ''src'' ''src'' True,
      dirent ''pages'' ''src/pages'' True,
      dirent ''index.astro'' ''src/pages/index.astro'' False,
      dirent ''app.ts'' ''src/app.ts'' False,
      dirent ''.astro'' ''.astro'' True,
      dirent ''types.d.ts'' ''.astro/types.d.ts'' False,
      dirent ''locked'' ''locked'' True,
      dirent ''README.md'' ''README.md'' False]
   \<and> fs_readdir (lookup (segments ''missing'') sample_tree) = Inl ENOENT
   \<and> sent (snd (on_message quiet_shell
        (Parsed (JObj [(''action'', JStr ''list''), (''path'', JStr ''missing'')]))
        (fresh_socket sample_tree))) =
       [JObj [(''action'', JStr ''list''), (''path'', JStr ''missing''),
              (''files'', JArr []), (''success'', JBool True)]]"
proof -
  note ld = listDirectory_skips_and_order [of _ "[]" quiet_shell]
  have a: "listDirectory (Some sample_tree) [] = 
     [dirent ''src'' ''src'' True,
      dirent ''pages'' ''src/pages'' True,
      dirent ''index.astro'' ''src/pages/index.astro'' False,
      dirent ''app.ts'' ''src/app.ts'' False,
      dirent ''.astro'' ''.astro'' True,
      dirent ''types.d.ts'' ''.astro/types.d.ts'' False,
      dirent ''locked'' ''locked'' True,
      dirent ''README.md'' ''README.md'' False]"
    unfolding sample_tree_def
    by (simp add: ld [THEN conjunct1] Let_def)
  have b: "fs_readdir (lookup (segments ''missing'') sample_tree) = Inl ENOENT"
    by (simp add: segments_def sample_tree_def)
  have safe: "isPathSafe (JStr ''missing'') = Inr True" by code_simp
  have c: "sent (snd (on_message quiet_shell
        (Parsed (JObj [(''action'', JStr ''list''), (''path'', JStr ''missing'')]))
        (fresh_socket sample_tree))) =
       sent (fresh_socket sample_tree) @ [JObj [(''action'', JStr ''list''), (''path'', JStr ''missing''),
              (''files'', JArr []), (''success'', JBool True)]]"
    using ld [THEN conjunct2, THEN conjunct2, rule_format,
        of "JObj [(''action'', JStr ''list''), (''path'', JStr ''missing'')]" "''missing''"
           "fresh_socket sample_tree" ENOENT] safe b
    by (simp add: fresh_socket_def)
  from a b c show ?thesis by (simp add: fresh_socket_def)
qed

section \<open>Claims about authentication\<close>

lemma deliver_not_listening: "\<not> listening ws \<Longrightarrow> deliver_all sh messages ws = ws"
  unfolding deliver_all_def
  by (induction messages) (simp_all add: deliver_def)

lemma authenticate_fails:
  assumes "map_of searchParams ''token'' = None
         \<or> map_of searchParams ''token'' = Some []
         \<or> (\<exists>token e. map_of searchParams ''token'' = Some token \<and> jwt_verify token = Inl e)"
  shows "authenticateConnection jwt_verify (Query searchParams) = None"
  using assms
  by (auto simp: authenticateConnection_def verifyToken_def Let_def)

text \<open>
  Claim C3. When the upgrade request carries no token (or an empty one), or a token
  that \<^verbatim>\<open>jwt.verify\<close> rejects, or no URL that can be parsed, the socket is closed
  with code 1008 and reason \<^verbatim>\<open>Unauthorized\<close>, no message listener is registered, and
  whatever messages arrive afterwards nothing is ever sent, no call reaches the
  file system or a subprocess, and the working directory is unchanged.
\<close>

theorem unauthenticated_connection_is_closed:
  assumes "req = BadUrl msg
         \<or> (\<exists>searchParams. req = Query searchParams \<and>
              (map_of searchParams ''token'' = None
               \<or> map_of searchParams ''token'' = Some []
               \<or> (\<exists>token e. map_of searchParams ''token'' = Some token \<and> jwt_verify token = Inl e)))"
  shows "closed (deliver_all sh messages (on_connection jwt_verify req (fresh_socket cwd)))
           = Some (1008, ''Unauthorized'')
       \<and> sent (deliver_all sh messages (on_connection jwt_verify req (fresh_socket cwd))) = []
       \<and> trace (deliver_all sh messages (on_connection jwt_verify req (fresh_socket cwd))) = []
       \<and> root (deliver_all sh messages (on_connection jwt_verify req (fresh_socket cwd))) = cwd
       \<and> \<not> listening (on_connection jwt_verify req (fresh_socket cwd))"
proof -
  have none: "authenticateConnection jwt_verify req = None"
  proof (cases req)
    case (BadUrl m)
    then show ?thesis by (simp add: authenticateConnection_def)
  next
    case (Query searchParams)
    with assms show ?thesis
      using authenticate_fails [of searchParams jwt_verify] by simp
  qed
  then have conn: "on_connection jwt_verify req (fresh_socket cwd)
      = (fresh_socket cwd)\<lparr>closed := Some (1008, ''Unauthorized'')\<rparr>"
    by (simp add: on_connection_def)
  have nl: "\<not> listening (on_connection jwt_verify req (fresh_socket cwd))"
    unfolding conn by (simp add: fresh_socket_def)
  show ?thesis
    using nl unfolding deliver_not_listening [OF nl, of sh messages]
    unfolding conn by (simp add: fresh_socket_def)
qed

theorem unauthenticated_connection_is_closed_witness:
  "map_of [(''token'', ''forged.jwt.token'')] ''token'' = Some ''forged.jwt.token''
   \<and> reject_all ''forged.jwt.token'' = Inl ''invalid signature''
   \<and> closed (deliver_all quiet_shell sample_messages
        (on_connection reject_all (Query [(''token'', ''forged.jwt.token'')]) (fresh_socket sample_tree)))
       = Some (1008, ''Unauthorized'')
   \<and> sent (deliver_all quiet_shell sample_messages
        (on_connection reject_all (Query [(''token'', ''forged.jwt.token'')]) (fresh_socket sample_tree)))
       = []
   \<and> sent (deliver_all quiet_shell sample_messages
        (on_connection reject_all (Query []) (fresh_socket sample_tree))) = []"
proof -
  have a: "map_of [(''token'', ''forged.jwt.token'')] ''token'' = Some ''forged.jwt.token''
      \<and> reject_all ''forged.jwt.token'' = Inl ''invalid signature''"
    by (simp add: reject_all_def)
  have b: "map_of ([] :: (string \<times> string) list) ''token'' = None" by simp
  from unauthenticated_connection_is_closed
         [of "Query [(''token'', ''forged.jwt.token'')]" _ reject_all quiet_shell sample_messages sample_tree]
       unauthenticated_connection_is_closed
         [of "Query []" _ reject_all quiet_shell sample_messages sample_tree]
       a b
  show ?thesis by blast
qed

section \<open>Claims about the git handlers\<close>

lemma js_split_hd: "\<exists>rest. js_split c s = takeWhile (\<lambda>x. x \<noteq> c) s # rest"
  by (induction s) (auto split: list.splits)

lemma first_token_string:
  "first_token (JStr command) = io_return (takeWhile (\<lambda>x. x \<noteq> CHR '' '') command)"
  using js_split_hd [of "CHR '' ''" command] by auto

lemma execAsync_apply:
  "execAsync sh cmd s =
     (case sh cmd (root s) of
        (Inl e, r) \<Rightarrow> (Inl e, s\<lparr>root := r, trace := trace s @ [Exec cmd (Some e)]\<rparr>)
      | (Inr out, r) \<Rightarrow> (Inr out, s\<lparr>root := r, trace := trace s @ [Exec cmd None]\<rparr>))"
  by (simp add: execAsync_def split: prod.splits sum.splits)

text \<open>
  Claim C4, as amended. Take a \<^verbatim>\<open>git\<close> request whose \<^verbatim>\<open>path\<close> field is absent, empty or
  accepted by the validator, so that the path gate lets it through to the
  handler. The handler looks at the text of the command before its first space
  character. When that text is not one of the eleven allowed subcommands, the
  response is \<^verbatim>\<open>success: false\<close> with the error \<^verbatim>\<open>Git command not allowed\<close> and no
  subprocess is started. When it is allowed, the whole command string, whatever
  follows the first token, is appended to \<^verbatim>\<open>git \<close> and run, and the response
  reports the outcome of that subprocess.
\<close>

theorem git_first_token_allow_list:
  assumes "field data ''action'' = JStr ''git''" and "field data ''command'' = JStr command"
    and "\<not> truthy (field data ''path'') \<or> isPathSafe (field data ''path'') = Inr True"
  shows "(takeWhile (\<lambda>c. c \<noteq> CHR '' '') command \<notin> set allowedCommands \<longrightarrow>
            on_message sh (Parsed data) s =
              (Inr (), s\<lparr>sent := sent s @
                 [JObj [(''action'', JStr ''git''), (''success'', JBool False),
                        (''error'', JStr ''Git command not allowed'')]]\<rparr>))
       \<and> (takeWhile (\<lambda>c. c \<noteq> CHR '' '') command \<in> set allowedCommands \<longrightarrow>
            on_message sh (Parsed data) s =
              (case sh (''git '' @ command) (root s) of
                 (Inr (stdout, stderr), cwd) \<Rightarrow>
                   (Inr (), s\<lparr>root := cwd,
                              trace := trace s @ [Exec (''git '' @ command) None],
                              sent := sent s @
                                [JObj [(''action'', JStr ''git''), (''success'', JBool True),
                                       (''stdout'', JStr stdout), (''stderr'', JStr stderr)]]\<rparr>)
               | (Inl e, cwd) \<Rightarrow>
                   (Inr (), s\<lparr>root := cwd,
                              trace := trace s @ [Exec (''git '' @ command) (Some e)],
                              sent := sent s @
                                [JObj [(''action'', JStr ''git''), (''success'', JBool False),
                                       (''error'', JStr e)]]\<rparr>)))"
proof -
  from assms(1) have obj: "data \<noteq> JNull" "data \<noteq> JUndefined" by auto
  from assms(1) have np: "field data ''action'' \<noteq> JStr ''ping''" by simp
  have "on_message sh (Parsed data) s = dispatch sh data s"
    by (rule on_message_dispatch [OF obj np assms(3)])
  also from assms(1) have "\<dots> = handle_git sh data s"
    by (simp add: dispatch_def)
  finally have d: "on_message sh (Parsed data) s = handle_git sh data s" .
  show ?thesis
    unfolding d handle_git_def assms(2) first_token_string
    by (auto simp: io_simps execAsync_apply stringify_object_def split: prod.splits sum.splits)
qed

theorem git_first_token_allow_list_witness:
  "takeWhile (\<lambda>c. c \<noteq> CHR '' '') ''rm -rf /'' \<notin> set allowedCommands
   \<and> on_message quiet_shell
        (Parsed (JObj [(''action'', JStr ''git''), (''command'', JStr ''rm -rf /'')]))
        (fresh_socket sample_tree) =
       (Inr (), (fresh_socket sample_tree)\<lparr>sent :=
           [JObj [(''action'', JStr ''git''), (''success'', JBool False),
                  (''error'', JStr ''Git command not allowed'')]]\<rparr>)
   \<and> takeWhile (\<lambda>c. c \<noteq> CHR '' '') ''status; rm -rf /'' \<notin> set allowedCommands
   \<and> takeWhile (\<lambda>c. c \<noteq> CHR '' '') ''log --oneline; touch x'' \<in> set allowedCommands
   \<and> isPathSafe (JStr ''src'') = Inr True
   \<and> trace (snd (on_message quiet_shell
        (Parsed (JObj [(''action'', JStr ''git''), (''command'', JStr ''log --oneline; touch x''),
                       (''path'', JStr ''src'')]))
        (fresh_socket sample_tree))) = [Exec ''git log --oneline; touch x'' None]"
proof -
  have a: "takeWhile (\<lambda>c. c \<noteq> CHR '' '') ''rm -rf /'' \<notin> set allowedCommands"
    by (simp add: allowedCommands_def)
  have b: "takeWhile (\<lambda>c. c \<noteq> CHR '' '') ''status; rm -rf /'' \<notin> set allowedCommands"
    by (simp add: allowedCommands_def)
  have c: "takeWhile (\<lambda>c. c \<noteq> CHR '' '') ''log --oneline; touch x'' \<in> set allowedCommands"
    by (simp add: allowedCommands_def)
  have safe: "isPathSafe (JStr ''src'') = Inr True" by code_simp
  have f1: "field (JObj [(''action'', JStr ''git''), (''command'', JStr ''rm -rf /'')]) ''action'' = JStr ''git''"
    "field (JObj [(''action'', JStr ''git''), (''command'', JStr ''rm -rf /'')]) ''command'' = JStr ''rm -rf /''"
    "\<not> truthy (field (JObj [(''action'', JStr ''git''), (''command'', JStr ''rm -rf /'')]) ''path'')
     \<or> isPathSafe (field (JObj [(''action'', JStr ''git''), (''command'', JStr ''rm -rf /'')]) ''path'')
         = Inr True"
    by simp_all
  have f2: "field (JObj [(''action'', JStr ''git''), (''command'', JStr ''log --oneline; touch x''),
                         (''path'', JStr ''src'')]) ''action'' = JStr ''git''"
    "field (JObj [(''action'', JStr ''git''), (''command'', JStr ''log --oneline; touch x''),
                  (''path'', JStr ''src'')]) ''command'' = JStr ''log --oneline; touch x''"
    "\<not> truthy (field (JObj [(''action'', JStr ''git''), (''command'', JStr ''log --oneline; touch x''),
                  (''path'', JStr ''src'')]) ''path'')
     \<or> isPathSafe (field (JObj [(''action'', JStr ''git''), (''command'', JStr ''log --oneline; touch x''),
                  (''path'', JStr ''src'')]) ''path'') = Inr True"
    using safe by simp_all
  from git_first_token_allow_list [OF f1, of quiet_shell "fresh_socket sample_tree"] a
  have r1: "on_message quiet_shell
        (Parsed (JObj [(''action'', JStr ''git''), (''command'', JStr ''rm -rf /'')]))
        (fresh_socket sample_tree) =
       (Inr (), (fresh_socket sample_tree)\<lparr>sent :=
           [JObj [(''action'', JStr ''git''), (''success'', JBool False),
                  (''error'', JStr ''Git command not allowed'')]]\<rparr>)"
    by (simp add: fresh_socket_def)
  from git_first_token_allow_list [OF f2, of quiet_shell "fresh_socket sample_tree"] c
  have r2: "trace (snd (on_message quiet_shell
        (Parsed (JObj [(''action'', JStr ''git''), (''command'', JStr ''log --oneline; touch x''),
                       (''path'', JStr ''src'')]))
        (fresh_socket sample_tree))) = [Exec ''git log --oneline; touch x'' None]"
    by (simp add: fresh_socket_def quiet_shell_def)
  from a b c safe r1 r2 show ?thesis by simp
qed

text \<open>
  Claim C4 as stated speaks of the first whitespace-delimited token. A command
  whose subcommand is followed by a tab has an allowed first token in that sense
  and is rejected all the same.
\<close>

theorem git_whitespace_token_counterexample:
  "spec_first_whitespace_token tab_command = ''status''
   \<and> ''status'' \<in> set allowedCommands
   \<and> dispatch quiet_shell (JObj [(''action'', JStr ''git''), (''command'', JStr tab_command)])
        (fresh_socket sample_tree) =
       (Inr (), (fresh_socket sample_tree)\<lparr>sent :=
           [JObj [(''action'', JStr ''git''), (''success'', JBool False),
                  (''error'', JStr ''Git command not allowed'')]]\<rparr>)
   \<and> on_message quiet_shell
        (Parsed (JObj [(''action'', JStr ''git''), (''command'', JStr tab_command)]))
        (fresh_socket sample_tree) =
       (Inr (), (fresh_socket sample_tree)\<lparr>sent :=
           [JObj [(''action'', JStr ''git''), (''success'', JBool False),
                  (''error'', JStr ''Git command not allowed'')]]\<rparr>)"
  by (simp add: spec_first_whitespace_token_def tab_command_def is_ws1_def allowedCommands_def
      on_message_def dispatch_def handle_git_def io_simps stringify_object_def fresh_socket_def
      Let_def)

lemma git_failure:
  assumes "handle_git sh data s = (r, s')"
    and "Exec cmd (Some e) \<in> set (drop (length (trace s)) (trace s'))"
  shows "sent s' = sent s @ [JObj [(''action'', JStr ''git''), (''success'', JBool False),
                                   (''error'', JStr e)]] \<and> closed s' = closed s"
proof (cases "field data ''command''")
  case (JStr command)
  with assms show ?thesis
    unfolding handle_git_def JStr first_token_string
    by (auto simp: io_simps execAsync_apply stringify_object_def split: prod.splits sum.splits if_splits)
qed (use assms in \<open>auto simp: handle_git_def io_simps stringify_object_def\<close>)

lemma git_status_failure:
  assumes "handle_git_status sh data s = (r, s')"
    and "Exec cmd (Some e) \<in> set (drop (length (trace s)) (trace s'))"
  shows "sent s' = sent s @ [JObj [(''action'', JStr ''git-status''), (''success'', JBool False),
                                   (''error'', JStr e), (''changes'', JArr [])]]
         \<and> closed s' = closed s"
  using assms unfolding handle_git_status_def
  by (auto simp: io_simps execAsync_apply stringify_object_def Let_def split: prod.splits sum.splits if_splits)

lemma git_diff_failure:
  assumes "handle_git_diff sh data s = (r, s')"
    and "Exec cmd (Some e) \<in> set (drop (length (trace s)) (trace s'))"
  shows "sent s' = sent s @ [JObj [(''action'', JStr ''git-diff''), (''success'', JBool False),
                                   (''error'', JStr e), (''diff'', JStr [])]]
         \<and> closed s' = closed s"
  using assms unfolding handle_git_diff_def
  by (auto simp: io_simps execAsync_apply stringify_object_def Let_def split: prod.splits sum.splits if_splits)

lemma git_commit_failure:
  assumes "handle_git_commit sh data s = (r, s')"
    and "Exec cmd (Some e) \<in> set (drop (length (trace s)) (trace s'))"
  shows "sent s' = sent s @ [JObj [(''action'', JStr ''git-commit''), (''success'', JBool False),
                                   (''error'', JStr e)]]
         \<and> closed s' = closed s"
  using assms unfolding handle_git_commit_def
  by (auto simp: io_simps execAsync_apply stringify_object_def Let_def split: prod.splits sum.splits if_splits)

lemma git_push_failure:
  assumes "handle_git_push sh data s = (r, s')"
    and "Exec cmd (Some e) \<in> set (drop (length (trace s)) (trace s'))"
  shows "sent s' = sent s @ [JObj [(''action'', JStr ''git-push''), (''success'', JBool False),
                                   (''error'', JStr e)]]
         \<and> closed s' = closed s"
  using assms unfolding handle_git_push_def
  by (auto simp: io_simps execAsync_apply stringify_object_def Let_def split: prod.splits sum.splits if_splits)

lemma git_pull_force_failure:
  assumes "handle_git_pull_force sh data s = (r, s')"
    and "Exec cmd (Some e) \<in> set (drop (length (trace s)) (trace s'))"
  shows "sent s' = sent s @ [JObj [(''action'', JStr ''git-pull-force''), (''success'', JBool False),
                                   (''error'', JStr e)]]
         \<and> closed s' = closed s"
  using assms unfolding handle_git_pull_force_def
  by (auto simp: io_simps execAsync_apply stringify_object_def Let_def split: prod.splits sum.splits if_splits)

lemma gitStatus_failure:
  assumes "handle_gitStatus sh data s = (r, s')"
    and "Exec cmd (Some e) \<in> set (drop (length (trace s)) (trace s'))"
  shows "sent s' = sent s @ [JObj [(''action'', JStr ''gitStatus''), (''success'', JBool True),
                                   (''changes'', JNum 0), (''files'', JArr [])]]
         \<and> closed s' = closed s"
  using assms unfolding handle_gitStatus_def
  by (auto simp: io_simps execAsync_apply stringify_object_def Let_def split: prod.splits sum.splits if_splits)

text \<open>
  Claim C5, as amended. When a subprocess started by the handler of \<^verbatim>\<open>git\<close>,
  \<^verbatim>\<open>git-status\<close>, \<^verbatim>\<open>git-diff\<close>, \<^verbatim>\<open>git-commit\<close>, \<^verbatim>\<open>git-push\<close> or \<^verbatim>\<open>git-pull-force\<close> fails,
  the handler sends exactly one response, with \<^verbatim>\<open>success: false\<close> and the message of
  the failure as its \<^verbatim>\<open>error\<close> string, and the connection is not closed. The
  \<^verbatim>\<open>gitStatus\<close> handler answers a failed subprocess with \<^verbatim>\<open>success: true\<close>, zero changes
  and no files, and does not close the connection either.
\<close>

theorem git_handlers_report_subprocess_failure:
  assumes "dispatch sh data s = (r, s')"
    and "Exec cmd (Some e) \<in> set (drop (length (trace s)) (trace s'))"
  shows "(field data ''action'' = JStr ''git'' \<longrightarrow>
            sent s' = sent s @ [JObj [(''action'', JStr ''git''), (''success'', JBool False),
                                      (''error'', JStr e)]] \<and> closed s' = closed s)
       \<and> (field data ''action'' = JStr ''git-status'' \<longrightarrow>
            sent s' = sent s @ [JObj [(''action'', JStr ''git-status''), (''success'', JBool False),
                                      (''error'', JStr e), (''changes'', JArr [])]]
            \<and> closed s' = closed s)
       \<and> (field data ''action'' = JStr ''git-diff'' \<longrightarrow>
            sent s' = sent s @ [JObj [(''action'', JStr ''git-diff''), (''success'', JBool False),
                                      (''error'', JStr e), (''diff'', JStr [])]]
            \<and> closed s' = closed s)
       \<and> (field data ''action'' = JStr ''git-commit'' \<longrightarrow>
            sent s' = sent s @ [JObj [(''action'', JStr ''git-commit''), (''success'', JBool False),
                                      (''error'', JStr e)]] \<and> closed s' = closed s)
       \<and> (field data ''action'' = JStr ''git-push'' \<longrightarrow>
            sent s' = sent s @ [JObj [(''action'', JStr ''git-push''), (''success'', JBool False),
                                      (''error'', JStr e)]] \<and> closed s' = closed s)
       \<and> (field data ''action'' = JStr ''git-pull-force'' \<longrightarrow>
            sent s' = sent s @ [JObj [(''action'', JStr ''git-pull-force''), (''success'', JBool False),
                                      (''error'', JStr e)]] \<and> closed s' = closed s)
       \<and> (field data ''action'' = JStr ''gitStatus'' \<longrightarrow>
            sent s' = sent s @ [JObj [(''action'', JStr ''gitStatus''), (''success'', JBool True),
                                      (''changes'', JNum 0), (''files'', JArr [])]]
            \<and> closed s' = closed s)"
proof (intro conjI impI)
  assume "field data ''action'' = JStr ''git''"
  with assms(1) have "handle_git sh data s = (r, s')" by (simp add: dispatch_def)
  from git_failure [OF this assms(2)]
  show "sent s' = sent s @ [JObj [(''action'', JStr ''git''), (''success'', JBool False),
                                      (''error'', JStr e)]]" and "closed s' = closed s"
    by simp_all
next
  assume "field data ''action'' = JStr ''git-status''"
  with assms(1) have "handle_git_status sh data s = (r, s')" by (simp add: dispatch_def)
  from git_status_failure [OF this assms(2)]
  show "sent s' = sent s @ [JObj [(''action'', JStr ''git-status''), (''success'', JBool False),
                                      (''error'', JStr e), (''changes'', JArr [])]]"
    and "closed s' = closed s"
    by simp_all
next
  assume "field data ''action'' = JStr ''git-diff''"
  with assms(1) have "handle_git_diff sh data s = (r, s')" by (simp add: dispatch_def)
  from git_diff_failure [OF this assms(2)]
  show "sent s' = sent s @ [JObj [(''action'', JStr ''git-diff''), (''success'', JBool False),
                                      (''error'', JStr e), (''diff'', JStr [])]]"
    and "closed s' = closed s"
    by simp_all
next
  assume "field data ''action'' = JStr ''git-commit''"
  with assms(1) have "handle_git_commit sh data s = (r, s')" by (simp add: dispatch_def)
  from git_commit_failure [OF this assms(2)]
  show "sent s' = sent s @ [JObj [(''action'', JStr ''git-commit''), (''success'', JBool False),
                                      (''error'', JStr e)]]" and "closed s' = closed s"
    by simp_all
next
  assume "field data ''action'' = JStr ''git-push''"
  with assms(1) have "handle_git_push sh data s = (r, s')" by (simp add: dispatch_def)
  from git_push_failure [OF this assms(2)]
  show "sent s' = sent s @ [JObj [(''action'', JStr ''git-push''), (''success'', JBool False),
                                      (''error'', JStr e)]]" and "closed s' = closed s"
    by simp_all
next
  assume "field data ''action'' = JStr ''git-pull-force''"
  with assms(1) have "handle_git_pull_force sh data s = (r, s')" by (simp add: dispatch_def)
  from git_pull_force_failure [OF this assms(2)]
  show "sent s' = sent s @ [JObj [(''action'', JStr ''git-pull-force''), (''success'', JBool False),
                                      (''error'', JStr e)]]" and "closed s' = closed s"
    by simp_all
next
  assume "field data ''action'' = JStr ''gitStatus''"
  with assms(1) have "handle_gitStatus sh data s = (r, s')" by (simp add: dispatch_def)
  from gitStatus_failure [OF this assms(2)]
  show "sent s' = sent s @ [JObj [(''action'', JStr ''gitStatus''), (''success'', JBool True),
                                      (''changes'', JNum 0), (''files'', JArr [])]]"
    and "closed s' = closed s"
    by simp_all
qed

theorem git_handlers_report_subprocess_failure_witness:
  "dispatch failing_shell (JObj [(''action'', JStr ''git-push'')]) (fresh_socket sample_tree) =
     (Inr (), (fresh_socket sample_tree)\<lparr>
        trace := [Exec ''git push'' (Some ''Command failed'')],
        sent := [JObj [(''action'', JStr ''git-push''), (''success'', JBool False),
                       (''error'', JStr ''Command failed'')]]\<rparr>)
   \<and> closed (fresh_socket sample_tree) = None"
proof -
  obtain r s' where run: "dispatch failing_shell (JObj [(''action'', JStr ''git-push'')])
      (fresh_socket sample_tree) = (r, s')"
    by (cases "dispatch failing_shell (JObj [(''action'', JStr ''git-push'')]) (fresh_socket sample_tree)")
  have tr: "trace s' = [Exec ''git push'' (Some ''Command failed'')]" and rt: "root s' = sample_tree"
    and rr: "r = Inr ()" and rest: "listening s' = False" "userId s' = JUndefined"
      "username s' = JUndefined" "repoId s' = JUndefined" "repoName s' = JUndefined"
    using run
    by (auto simp: dispatch_def handle_git_push_def io_simps execAsync_apply failing_shell_def
        fresh_socket_def Let_def)
  have ex: "Exec ''git push'' (Some ''Command failed'')
      \<in> set (drop (length (trace (fresh_socket sample_tree))) (trace s'))"
    by (simp add: tr fresh_socket_def)
  from git_handlers_report_subprocess_failure [OF run ex]
  have "sent s' = [JObj [(''action'', JStr ''git-push''), (''success'', JBool False),
                       (''error'', JStr ''Command failed'')]]" and "closed s' = None"
    by (simp_all add: fresh_socket_def)
  with tr rt rr rest have "s' = (fresh_socket sample_tree)\<lparr>
        trace := [Exec ''git push'' (Some ''Command failed'')],
        sent := [JObj [(''action'', JStr ''git-push''), (''success'', JBool False),
                       (''error'', JStr ''Command failed'')]]\<rparr>"
    by (simp add: fresh_socket_def)
  with run rr show ?thesis by (simp add: fresh_socket_def)
qed

text \<open>
  Claim C5 as stated includes \<^verbatim>\<open>gitStatus\<close> among the handlers that answer a
  failed subprocess with \<^verbatim>\<open>success: false\<close> and an error string. Its \<^verbatim>\<open>catch\<close> branch
  sends \<^verbatim>\<open>success: true\<close> and no error.
\<close>

theorem gitStatus_failure_reported_as_success_counterexample:
  "dispatch failing_shell (JObj [(''action'', JStr ''gitStatus'')]) (fresh_socket sample_tree) =
     (Inr (), (fresh_socket sample_tree)\<lparr>
        trace := [Exec ''git status --porcelain'' (Some ''Command failed'')],
        sent := [JObj [(''action'', JStr ''gitStatus''), (''success'', JBool True),
                       (''changes'', JNum 0), (''files'', JArr [])]]\<rparr>)"
  by (simp add: dispatch_def handle_gitStatus_def io_simps execAsync_apply failing_shell_def
      fresh_socket_def Let_def stringify_object_def)

lemma js_includes_char: "js_includes s [c] = (c \<in> set s)"
  by (induction s) auto

lemma status_type_chain:
  "status_type status =
     (if CHR ''?'' \<in> set status then ''untracked''
      else if CHR ''A'' \<in> set status then ''added''
      else if CHR ''D'' \<in> set status then ''deleted''
      else if CHR ''R'' \<in> set status then ''renamed''
      else ''modified'')"
  by (simp add: status_type_def js_includes_char)

lemma status_lines_nonempty: "line \<in> set (status_lines out) \<Longrightarrow> line \<noteq> []"
  by (auto simp: status_lines_def)

lemma porcelain_lines:
  "status_lines porcelain_output =
     [''?? new.txt'', ''A  added.txt'', '' D gone.txt'', ''R  old.txt -> new.txt'', '' M app.ts'']"
  by code_simp

text \<open>
  Claim C6, as amended. When \<^verbatim>\<open>git status --porcelain\<close> succeeds, the \<^verbatim>\<open>git-status\<close>
  action turns each non-empty line of the trimmed output into a record of the
  file (the line from its fourth character), the status (its first two
  characters) and a type derived from the status: \<^verbatim>\<open>untracked\<close> when it contains
  \<^verbatim>\<open>?\<close>, else \<^verbatim>\<open>added\<close> when it contains \<^verbatim>\<open>A\<close>, else \<^verbatim>\<open>deleted\<close> when it contains \<^verbatim>\<open>D\<close>, else
  \<^verbatim>\<open>renamed\<close> when it contains \<^verbatim>\<open>R\<close>, else \<^verbatim>\<open>modified\<close>. The \<^verbatim>\<open>gitStatus\<close> action does not
  parse the lines: it returns them as strings, with their number.
\<close>

theorem git_status_typed_changes:
  assumes "sh ''git status --porcelain'' (root s) = (Inr (out, err), cwd)"
  shows "(field data ''action'' = JStr ''git-status'' \<longrightarrow>
           dispatch sh data s =
             (Inr (), s\<lparr>root := cwd,
                        trace := trace s @ [Exec ''git status --porcelain'' None],
                        sent := sent s @
                          [JObj [(''action'', JStr ''git-status''), (''success'', JBool True),
                                 (''changes'', JArr (map (\<lambda>line.
                                    JObj [(''file'', JStr (drop 3 line)),
                                          (''status'', JStr (take 2 line)),
                                          (''type'', JStr
                                             (if CHR ''?'' \<in> set (take 2 line) then ''untracked''
                                              else if CHR ''A'' \<in> set (take 2 line) then ''added''
                                              else if CHR ''D'' \<in> set (take 2 line) then ''deleted''
                                              else if CHR ''R'' \<in> set (take 2 line) then ''renamed''
                                              else ''modified''))])
                                    (status_lines out)))]]\<rparr>))
       \<and> (field data ''action'' = JStr ''gitStatus'' \<longrightarrow>
           dispatch sh data s =
             (Inr (), s\<lparr>root := cwd,
                        trace := trace s @ [Exec ''git status --porcelain'' None],
                        sent := sent s @
                          [JObj [(''action'', JStr ''gitStatus''), (''success'', JBool True),
                                 (''changes'', JNum (int (length (status_lines out)))),
                                 (''files'', JArr (map JStr (status_lines out)))]]\<rparr>))
       \<and> (\<forall>line \<in> set (status_lines out). line \<noteq> [])
       \<and> status_lines out = filter (\<lambda>line. line \<noteq> []) (js_split (CHR 0x0A) (js_trim out))"
proof (intro conjI impI ballI)
  assume "field data ''action'' = JStr ''git-status''"
  then have "dispatch sh data s = handle_git_status sh data s" by (simp add: dispatch_def)
  with assms show "dispatch sh data s =
             (Inr (), s\<lparr>root := cwd,
                        trace := trace s @ [Exec ''git status --porcelain'' None],
                        sent := sent s @
                          [JObj [(''action'', JStr ''git-status''), (''success'', JBool True),
                                 (''changes'', JArr (map (\<lambda>line.
                                    JObj [(''file'', JStr (drop 3 line)),
                                          (''status'', JStr (take 2 line)),
                                          (''type'', JStr
                                             (if CHR ''?'' \<in> set (take 2 line) then ''untracked''
                                              else if CHR ''A'' \<in> set (take 2 line) then ''added''
                                              else if CHR ''D'' \<in> set (take 2 line) then ''deleted''
                                              else if CHR ''R'' \<in> set (take 2 line) then ''renamed''
                                              else ''modified''))])
                                    (status_lines out)))]]\<rparr>)"
    by (simp add: handle_git_status_def io_simps execAsync_apply stringify_object_def Let_def
        parse_status_line_def status_type_chain)
next
  assume "field data ''action'' = JStr ''gitStatus''"
  then have "dispatch sh data s = handle_gitStatus sh data s" by (simp add: dispatch_def)
  with assms show "dispatch sh data s =
             (Inr (), s\<lparr>root := cwd,
                        trace := trace s @ [Exec ''git status --porcelain'' None],
                        sent := sent s @
                          [JObj [(''action'', JStr ''gitStatus''), (''success'', JBool True),
                                 (''changes'', JNum (int (length (status_lines out)))),
                                 (''files'', JArr (map JStr (status_lines out)))]]\<rparr>)"
    by (simp add: handle_gitStatus_def io_simps execAsync_apply stringify_object_def Let_def)
next
  fix line assume "line \<in> set (status_lines out)"
  then show "line \<noteq> []" by (rule status_lines_nonempty)
next
  show "status_lines out = filter (\<lambda>line. line \<noteq> []) (js_split (CHR 0x0A) (js_trim out))"
    by (simp add: status_lines_def)
qed

theorem git_status_typed_changes_witness:
  "status_shell ''git status --porcelain'' (root (fresh_socket sample_tree))
     = (Inr (porcelain_output, []), sample_tree)
   \<and> sent (snd (dispatch status_shell (JObj [(''action'', JStr ''git-status'')])
        (fresh_socket sample_tree))) =
       [JObj [(''action'', JStr ''git-status''), (''success'', JBool True),
              (''changes'', JArr
                 [JObj [(''file'', JStr ''new.txt''), (''status'', JStr ''??''), (''type'', JStr ''untracked'')],
                  JObj [(''file'', JStr ''added.txt''), (''status'', JStr ''A ''), (''type'', JStr ''added'')],
                  JObj [(''file'', JStr ''gone.txt''), (''status'', JStr '' D''), (''type'', JStr ''deleted'')],
                  JObj [(''file'', JStr ''old.txt -> new.txt''), (''status'', JStr ''R ''), (''type'', JStr ''renamed'')],
                  JObj [(''file'', JStr ''app.ts''), (''status'', JStr '' M''), (''type'', JStr ''modified'')]])]]"
proof -
  have run: "status_shell ''git status --porcelain'' (root (fresh_socket sample_tree))
     = (Inr (porcelain_output, []), sample_tree)"
    by (simp add: status_shell_def fresh_socket_def)
  have f: "field (JObj [(''action'', JStr ''git-status'')]) ''action'' = JStr ''git-status''"
    by simp
  from git_status_typed_changes
         [where sh = status_shell and s = "fresh_socket sample_tree"
            and data = "JObj [(''action'', JStr ''git-status'')]", OF run] f
  have "sent (snd (dispatch status_shell (JObj [(''action'', JStr ''git-status'')])
        (fresh_socket sample_tree))) =
       [JObj [(''action'', JStr ''git-status''), (''success'', JBool True),
              (''changes'', JArr
                 [JObj [(''file'', JStr ''new.txt''), (''status'', JStr ''??''), (''type'', JStr ''untracked'')],
                  JObj [(''file'', JStr ''added.txt''), (''status'', JStr ''A ''), (''type'', JStr ''added'')],
                  JObj [(''file'', JStr ''gone.txt''), (''status'', JStr '' D''), (''type'', JStr ''deleted'')],
                  JObj [(''file'', JStr ''old.txt -> new.txt''), (''status'', JStr ''R ''), (''type'', JStr ''renamed'')],
                  JObj [(''file'', JStr ''app.ts''), (''status'', JStr '' M''), (''type'', JStr ''modified'')]])]]"
    by (simp add: porcelain_lines fresh_socket_def)
  with run show ?thesis by simp
qed

text \<open>
  Claim C6 as stated has \<^verbatim>\<open>gitStatus\<close> build typed change records as well. Its
  response carries the raw lines and a count, and no type.
\<close>

theorem gitStatus_returns_raw_lines_counterexample:
  "dispatch status_shell (JObj [(''action'', JStr ''gitStatus'')]) (fresh_socket sample_tree) =
     (Inr (), (fresh_socket sample_tree)\<lparr>
        trace := [Exec ''git status --porcelain'' None],
        sent := [JObj [(''action'', JStr ''gitStatus''), (''success'', JBool True),
                       (''changes'', JNum 5),
                       (''files'', JArr [JStr ''?? new.txt'', JStr ''A  added.txt'',
                                         JStr '' D gone.txt'', JStr ''R  old.txt -> new.txt'',
                                         JStr '' M app.ts''])]]\<rparr>)"
  by (simp add: dispatch_def handle_gitStatus_def io_simps execAsync_apply status_shell_def
      fresh_socket_def Let_def stringify_object_def porcelain_lines)

section \<open>Properties of Base64\<close>

lemma pack_div: "t < n \<Longrightarrow> (r * n + t) div n = (r::nat)"
  by simp

lemma pack_mod: "t < n \<Longrightarrow> (r * n + t) mod n = (t::nat)"
  by simp

lemma sextet_bytes:
  fixes x y z :: nat
  assumes "x < 256" "y < 256" "z < 256"
  shows "(x div 4) mod 64 * 4 + ((x mod 4) * 16 + y div 16) mod 64 div 16 = x"
    and "(((x mod 4) * 16 + y div 16) mod 64 mod 16) * 16
           + ((y mod 16) * 4 + z div 64) mod 64 div 4 = y"
    and "(((y mod 16) * 4 + z div 64) mod 64 mod 4) * 64 + z mod 64 mod 64 = z"
proof -
  define q r t1 t2 u1 u2 where "q = x div 4" and "r = x mod 4" and "t1 = y div 16"
    and "t2 = y mod 16" and "u1 = z div 64" and "u2 = z mod 64"
  have x: "x = q * 4 + r" and y: "y = t1 * 16 + t2" and z: "z = u1 * 64 + u2"
    by (simp_all add: q_def r_def t1_def t2_def u1_def u2_def)
  have b: "r < 4" "t2 < 16" "u2 < 64" by (simp_all add: r_def t2_def u2_def)
  have q: "q < 64" using assms(1) unfolding q_def by (simp add: less_mult_imp_div_less)
  have t1: "t1 < 16" using assms(2) unfolding t1_def by (simp add: less_mult_imp_div_less)
  have u1: "u1 < 4" using assms(3) unfolding u1_def by (simp add: less_mult_imp_div_less)
  have s2: "r * 16 + t1 < 64" using b(1) t1 by linarith
  have s3: "t2 * 4 + u1 < 64" using b(2) u1 by linarith
  have e1: "q mod 64 * 4 + (r * 16 + t1) mod 64 div 16 = q * 4 + r"
    using q s2 t1 by (simp add: pack_div)
  have e2: "((r * 16 + t1) mod 64 mod 16) * 16 + (t2 * 4 + u1) mod 64 div 4 = t1 * 16 + t2"
    using s2 s3 t1 u1 by (simp add: pack_div pack_mod)
  have e3: "((t2 * 4 + u1) mod 64 mod 4) * 64 + u2 mod 64 = u1 * 64 + u2"
    using s3 u1 b(3) by (simp add: pack_mod)
  show "(x div 4) mod 64 * 4 + ((x mod 4) * 16 + y div 16) mod 64 div 16 = x"
    using e1 unfolding q_def [symmetric] r_def [symmetric] t1_def [symmetric] x [symmetric] .
  show "(((x mod 4) * 16 + y div 16) mod 64 mod 16) * 16
           + ((y mod 16) * 4 + z div 64) mod 64 div 4 = y"
    using e2 unfolding r_def [symmetric] t1_def [symmetric] t2_def [symmetric]
      u1_def [symmetric] y [symmetric] .
  show "(((y mod 16) * 4 + z div 64) mod 64 mod 4) * 64 + z mod 64 mod 64 = z"
    using e3 b(3) unfolding t2_def [symmetric] u1_def [symmetric] u2_def [symmetric] z [symmetric]
    by simp
qed

lemma of_char_small: "k < 256 \<Longrightarrow> (of_char (char_of k) :: nat) = k"
  by simp

lemma of_char_less_256: "(of_char c :: nat) < 256"
proof -
  have "(of_char c :: nat) mod 256 = of_char c" by (rule of_char_mod_256)
  then show ?thesis by (metis mod_less_divisor zero_less_numeral)
qed

lemma b64_value_char: "b64_value (b64_char n) = Some (n mod 64)"
proof -
  define k where "k = n mod 64"
  have k: "k < 64" by (simp add: k_def)
  consider "k < 26" | "26 \<le> k" "k < 52" | "52 \<le> k" "k < 62" | "k = 62" | "k = 63"
    using k by linarith
  then have "b64_value (let k = k in
      if k < 26 then char_of (65 + k)
      else if k < 52 then char_of (71 + k)
      else if k < 62 then char_of (k - 4)
      else if k = 62 then CHR ''+''
      else CHR ''/'') = Some k"
  proof cases
    case 1
    then have "(of_char (char_of (65 + k)) :: nat) = 65 + k" by (intro of_char_small) simp
    with 1 show ?thesis by (auto simp: b64_value_def Let_def)
  next
    case 2
    then have "(of_char (char_of (71 + k)) :: nat) = 71 + k" by (intro of_char_small) simp
    with 2 show ?thesis by (auto simp: b64_value_def Let_def)
  next
    case 3
    then have "(of_char (char_of (k - 4)) :: nat) = k - 4" by (intro of_char_small) simp
    with 3 show ?thesis by (auto simp: b64_value_def Let_def)
  next
    case 4
    then show ?thesis by (auto simp: b64_value_def Let_def)
  next
    case 5
    then show ?thesis by (auto simp: b64_value_def Let_def)
  qed
  then show ?thesis by (simp add: b64_char_def k_def)
qed

lemma b64_char_not_pad: "b64_char n \<noteq> CHR ''=''"
proof
  assume "b64_char n = CHR ''=''"
  then have "b64_value (b64_char n) = b64_value (CHR ''='')" by simp
  then show False by (simp add: b64_value_char) (simp add: b64_value_def)
qed

lemma b64_sextets_char: "b64_sextets (b64_char n # s) = (n mod 64) # b64_sextets s"
  by (simp add: b64_sextets_def b64_char_not_pad b64_value_char List.map_filter_simps)

lemma b64_sextets_pad: "b64_sextets (CHR ''='' # s) = []"
  by (simp add: b64_sextets_def List.map_filter_simps)

lemma b64_sextets_Nil: "b64_sextets [] = []"
  by (simp add: b64_sextets_def List.map_filter_simps)

lemma sextet_bytes_short:
  fixes x y :: nat
  assumes "x < 256" "y < 256"
  shows "(x div 4) mod 64 * 4 + ((x mod 4) * 16) mod 64 div 16 = x"
    and "(((x mod 4) * 16 + y div 16) mod 64 mod 16) * 16 + ((y mod 16) * 4) mod 64 div 4 = y"
  using sextet_bytes(1) [of x 0] sextet_bytes(2) [of x y 0] assms by simp_all

lemma b64_bytes_group3:
  fixes x y z :: nat
  assumes "x < 256" "y < 256" "z < 256"
  shows "b64_bytes ((x div 4) mod 64 # ((x mod 4) * 16 + y div 16) mod 64
           # ((y mod 16) * 4 + z div 64) mod 64 # (z mod 64) mod 64 # tail)
         = [char_of x, char_of y, char_of z] @ b64_bytes tail"
  by (simp only: b64_bytes.simps sextet_bytes [OF assms])

lemma b64_bytes_group2:
  fixes x y :: nat
  assumes "x < 256" "y < 256"
  shows "b64_bytes [(x div 4) mod 64, ((x mod 4) * 16 + y div 16) mod 64, ((y mod 16) * 4) mod 64]
         = [char_of x, char_of y]"
  by (simp only: b64_bytes.simps sextet_bytes(1) [OF assms assms(2)] sextet_bytes_short(2) [OF assms])

lemma b64_bytes_group1:
  fixes x :: nat
  assumes "x < 256"
  shows "b64_bytes [(x div 4) mod 64, ((x mod 4) * 16) mod 64] = [char_of x]"
  by (simp only: b64_bytes.simps sextet_bytes_short(1) [OF assms assms])

lemma base64_roundtrip: "base64_decode (base64_encode bytes) = bytes"
  unfolding base64_decode_def
proof (induction bytes rule: base64_encode.induct)
  case (1 a b c rest)
  have "b64_bytes (b64_sextets (base64_encode (a # b # c # rest)))
      = [char_of (of_char a :: nat), char_of (of_char b :: nat), char_of (of_char c :: nat)]
        @ b64_bytes (b64_sextets (base64_encode rest))"
    by (simp only: base64_encode.simps Let_def append_Cons append_Nil b64_sextets_char
        b64_bytes_group3 [OF of_char_less_256 of_char_less_256 of_char_less_256])
  with 1 show ?case by simp
next
  case (2 a b)
  have "b64_bytes (b64_sextets (base64_encode [a, b]))
      = [char_of (of_char a :: nat), char_of (of_char b :: nat)]"
    by (simp only: base64_encode.simps Let_def append_Cons append_Nil b64_sextets_char
        b64_sextets_pad b64_bytes_group2 [OF of_char_less_256 of_char_less_256])
  then show ?case by simp
next
  case (3 a)
  have "b64_bytes (b64_sextets (base64_encode [a])) = [char_of (of_char a :: nat)]"
    by (simp only: base64_encode.simps Let_def append_Cons append_Nil b64_sextets_char
        b64_sextets_pad b64_bytes_group1 [OF of_char_less_256])
  then show ?case by simp
next
  case 4
  then show ?case by (simp add: b64_sextets_Nil)
qed

section \<open>Claims about the file handlers\<close>

lemma map_of_set_entry: "map_of (set_entry k v es) k = Some v"
  by (induction es) auto

lemma lookup_put:
  "put segs new node = Some node' \<Longrightarrow> lookup segs node' = Some new"
proof (induction segs new node arbitrary: node' rule: put.induct)
  case (1 new n)
  then show ?case by simp
next
  case (2 s new r es)
  then show ?case by (auto simp: map_of_set_entry)
next
  case (3 s v va new r es)
  then show ?case
    by (auto simp: map_of_set_entry split: option.splits)
next
  case (4 s ss new uu)
  then show ?case by simp
qed

lemma read_after_write:
  assumes "fs_writeFile p bytes cwd = Inr cwd'"
  shows "fs_readFile p cwd' = Inr bytes"
proof -
  from assms have ne: "p \<noteq> []" and "put (segments p) (File bytes) cwd = Some cwd'"
    by (auto simp: fs_writeFile_def split: if_splits option.splits fsnode.splits)
  then have "lookup (segments p) cwd' = Some (File bytes)" by (simp add: lookup_put)
  with ne show ?thesis by (simp add: fs_readFile_def)
qed

lemma io_update_apply:
  "io_update ef g s =
     (case g (root s) of
        Inl err \<Rightarrow> (Inl err, s\<lparr>trace := trace s @ [ef]\<rparr>)
      | Inr r \<Rightarrow> (Inr (), s\<lparr>root := r, trace := trace s @ [ef]\<rparr>))"
  by (simp add: io_update_def)

lemma touch_global_css_root:
  "touch_global_css path s = (r, s') \<Longrightarrow> root s' = root s \<and> sent s' = sent s"
  by (cases path)
     (auto simp: touch_global_css_def io_simps split: if_splits sum.splits prod.splits)

lemma handle_write_success:
  assumes "handle_write data s = (r, s1)"
    and "field data ''path'' = JStr p"
    and "field data ''encoding'' = JStr ''base64''"
    and "field data ''content'' = JStr text"
    and "sent s1 = sent s @ [JObj [(''action'', JStr ''write''), (''path'', JStr p),
                                    (''success'', JBool True)]]"
  shows "fs_readFile p (root s1) = Inr (base64_decode text)"
proof -
  let ?fail = "\<lambda>error. send [(''action'', JStr ''write''), (''path'', field data ''path''),
                (''success'', JBool False), (''error'', JStr error)]"
  obtain s2 where mk: "io_update (Mkdir (path_dirname p)) (fs_mkdir (path_dirname p)) s = (Inr (), s2)"
    using assms
    by (auto simp: handle_write_def dirname_def mkdir_recursive_def writeFile_def io_simps
        io_update_apply stringify_object_def split: sum.splits prod.splits)
  obtain s3 where wr: "io_update (WriteFile p (base64_decode text)) (fs_writeFile p (base64_decode text)) s2 = (Inr (), s3)"
    using assms mk
    by (auto simp: handle_write_def dirname_def mkdir_recursive_def writeFile_def io_simps
        io_update_apply stringify_object_def split: sum.splits prod.splits)
  obtain r4 s4 where tc: "touch_global_css (JStr p) s3 = (r4, s4)"
    by (cases "touch_global_css (JStr p) s3")
  from touch_global_css_root [OF tc] have r43: "root s4 = root s3" by simp
  from wr have "fs_writeFile p (base64_decode text) (root s2) = Inr (root s3)"
    by (auto simp: io_update_apply split: sum.splits)
  then have rd: "fs_readFile p (root s3) = Inr (base64_decode text)" by (rule read_after_write)
  have "root s1 = root s4"
    using assms mk wr tc
    by (auto simp: handle_write_def dirname_def mkdir_recursive_def writeFile_def io_simps
        stringify_object_def split: sum.splits prod.splits)
  with rd r43 show ?thesis by simp
qed

lemma sample_write_succeeds:
  "sent (snd (on_message quiet_shell (Parsed b64_write_request) (fresh_socket sample_tree))) =
     [JObj [(''action'', JStr ''write''), (''path'', JStr ''public/img/logo.png''),
            (''success'', JBool True)]]"
  by code_simp

text \<open>
  Claim C8. Let \<open>p\<close> be a safe path and \<open>C\<close> any bytes. When a \<^verbatim>\<open>write\<close> request for
  \<open>p\<close> with encoding \<^verbatim>\<open>base64\<close> and content \<open>base64(C)\<close> has been answered with
  \<^verbatim>\<open>success: true\<close>, a \<^verbatim>\<open>read\<close> request for \<open>p\<close> with encoding \<^verbatim>\<open>base64\<close> handled next is
  answered with \<^verbatim>\<open>success: true\<close>, the content \<open>base64(C)\<close> unchanged, and the encoding
  \<^verbatim>\<open>base64\<close> echoed.
\<close>

theorem base64_write_read_roundtrip:
  assumes "isPathSafe (JStr p) = Inr True"
    and "field wreq ''action'' = JStr ''write''" and "field wreq ''path'' = JStr p"
    and "field wreq ''encoding'' = JStr ''base64''"
    and "field wreq ''content'' = JStr (base64_encode C)"
    and "field rreq ''action'' = JStr ''read''" and "field rreq ''path'' = JStr p"
    and "field rreq ''encoding'' = JStr ''base64''"
    and "on_message sh (Parsed wreq) s = (r1, s1)"
    and "sent s1 = sent s @ [JObj [(''action'', JStr ''write''), (''path'', JStr p),
                                    (''success'', JBool True)]]"
  shows "on_message sh (Parsed rreq) s1 =
           (Inr (), s1\<lparr>trace := trace s1 @ [ReadFile p],
                      sent := sent s1 @
                        [JObj [(''action'', JStr ''read''), (''path'', JStr p),
                               (''content'', JStr (base64_encode C)),
                               (''encoding'', JStr ''base64''),
                               (''success'', JBool True)]]\<rparr>)"
proof -
  from assms(2) have wobj: "wreq \<noteq> JNull" "wreq \<noteq> JUndefined" by auto
  from assms(6) have robj: "rreq \<noteq> JNull" "rreq \<noteq> JUndefined" by auto
  have "on_message sh (Parsed wreq) s = dispatch sh wreq s"
    using on_message_dispatch [OF wobj, of sh s] assms(1,2,3) by simp
  also have "\<dots> = handle_write wreq s" using assms(2) by (simp add: dispatch_def)
  finally have hw: "handle_write wreq s = (r1, s1)" using assms(9) by simp
  have rd: "fs_readFile p (root s1) = Inr C"
    using handle_write_success [OF hw assms(3,4,5,10)] by (simp add: base64_roundtrip)
  have "on_message sh (Parsed rreq) s1 = dispatch sh rreq s1"
    using on_message_dispatch [OF robj, of sh s1] assms(1,6,7) by simp
  also have "\<dots> = handle_read rreq s1" using assms(6) by (simp add: dispatch_def)
  also have "\<dots> = (Inr (), s1\<lparr>trace := trace s1 @ [ReadFile p],
                      sent := sent s1 @
                        [JObj [(''action'', JStr ''read''), (''path'', JStr p),
                               (''content'', JStr (base64_encode C)),
                               (''encoding'', JStr ''base64''),
                               (''success'', JBool True)]]\<rparr>)"
    using rd assms(7,8)
    by (simp add: handle_read_def readFile_def io_simps stringify_object_def)
  finally show ?thesis .
qed

theorem base64_write_read_roundtrip_witness:
  "isPathSafe (JStr ''public/img/logo.png'') = Inr True
   \<and> base64_encode sample_bytes = ''iVBORwD/Cg==''
   \<and> sent (snd (on_message quiet_shell (Parsed b64_read_request)
        (snd (on_message quiet_shell (Parsed b64_write_request) (fresh_socket sample_tree))))) =
       [JObj [(''action'', JStr ''write''), (''path'', JStr ''public/img/logo.png''),
              (''success'', JBool True)],
        JObj [(''action'', JStr ''read''), (''path'', JStr ''public/img/logo.png''),
              (''content'', JStr ''iVBORwD/Cg==''), (''encoding'', JStr ''base64''),
              (''success'', JBool True)]]"
proof -
  have safe: "isPathSafe (JStr ''public/img/logo.png'') = Inr True" by code_simp
  have enc: "base64_encode sample_bytes = ''iVBORwD/Cg==''" by code_simp
  let ?s1 = "snd (on_message quiet_shell (Parsed b64_write_request) (fresh_socket sample_tree))"
  have run: "on_message quiet_shell (Parsed b64_write_request) (fresh_socket sample_tree)
      = (fst (on_message quiet_shell (Parsed b64_write_request) (fresh_socket sample_tree)), ?s1)"
    by simp
  have w: "sent ?s1 = sent (fresh_socket sample_tree) @
      [JObj [(''action'', JStr ''write''), (''path'', JStr ''public/img/logo.png''),
             (''success'', JBool True)]]"
    using sample_write_succeeds by (simp add: fresh_socket_def)
  have "on_message quiet_shell (Parsed b64_read_request) ?s1 =
           (Inr (), ?s1\<lparr>trace := trace ?s1 @ [ReadFile ''public/img/logo.png''],
                      sent := sent ?s1 @
                        [JObj [(''action'', JStr ''read''), (''path'', JStr ''public/img/logo.png''),
                               (''content'', JStr (base64_encode sample_bytes)),
                               (''encoding'', JStr ''base64''),
                               (''success'', JBool True)]]\<rparr>)"
    by (rule base64_write_read_roundtrip [OF safe _ _ _ _ _ _ _ run w])
       (simp_all add: b64_write_request_def b64_read_request_def)
  then have "sent (snd (on_message quiet_shell (Parsed b64_read_request) ?s1)) =
      sent ?s1 @ [JObj [(''action'', JStr ''read''), (''path'', JStr ''public/img/logo.png''),
                               (''content'', JStr (base64_encode sample_bytes)),
                               (''encoding'', JStr ''base64''),
                               (''success'', JBool True)]]"
    by simp
  with safe enc sample_write_succeeds show ?thesis by simp
qed

section \<open>Claims about the protocol\<close>

lemma sends_only_return: "sends_only P (io_return x)"
  by (simp add: sends_only_def io_simps)

lemma sends_only_throw: "sends_only P (io_throw e)"
  by (simp add: sends_only_def io_simps)

lemma sends_only_bind:
  assumes "sends_only P m" and "\<And>x. sends_only P (f x)"
  shows "sends_only P (io_bind m f)"
  unfolding sends_only_def
proof
  fix s
  from assms(1) obtain ms where m: "sent (snd (m s)) = sent s @ ms" "list_all P ms"
    unfolding sends_only_def by blast
  show "\<exists>ms. sent (snd (io_bind m f s)) = sent s @ ms \<and> list_all P ms"
  proof (cases "m s")
    case (Pair res s1)
    show ?thesis
    proof (cases res)
      case (Inl e)
      with Pair m show ?thesis by (auto simp: io_simps)
    next
      case (Inr x)
      from assms(2) [of x] obtain ms' where
        f: "sent (snd (f x s1)) = sent s1 @ ms'" "list_all P ms'"
        unfolding sends_only_def by blast
      with Pair Inr m have "sent (snd (io_bind m f s)) = sent s @ (ms @ ms')"
        by (simp add: io_simps)
      with m f show ?thesis by (metis list_all_append)
    qed
  qed
qed

lemma sends_only_catch:
  assumes "sends_only P m" and "\<And>e. sends_only P (h e)"
  shows "sends_only P (io_catch m h)"
  unfolding sends_only_def
proof
  fix s
  from assms(1) obtain ms where m: "sent (snd (m s)) = sent s @ ms" "list_all P ms"
    unfolding sends_only_def by blast
  show "\<exists>ms. sent (snd (io_catch m h s)) = sent s @ ms \<and> list_all P ms"
  proof (cases "m s")
    case (Pair res s1)
    show ?thesis
    proof (cases res)
      case (Inr x)
      with Pair m show ?thesis by (auto simp: io_simps)
    next
      case (Inl e)
      from assms(2) [of e] obtain ms' where
        f: "sent (snd (h e s1)) = sent s1 @ ms'" "list_all P ms'"
        unfolding sends_only_def by blast
      with Pair Inl m have "sent (snd (io_catch m h s)) = sent s @ (ms @ ms')"
        by (simp add: io_simps)
      with m f show ?thesis by (metis list_all_append)
    qed
  qed
qed

lemma sends_only_send: "P (stringify_object members) \<Longrightarrow> sends_only P (send members)"
  by (simp add: sends_only_def io_simps)

lemma sends_only_read: "sends_only P (io_read ef g)"
  by (simp add: sends_only_def io_simps)

lemma sends_only_update: "sends_only P (io_update ef g)"
  by (simp add: sends_only_def io_update_apply split: sum.splits)

lemma sends_only_exec: "sends_only P (execAsync sh cmd)"
  by (simp add: sends_only_def execAsync_apply split: sum.splits prod.splits)

lemma sends_only_arg_string: "sends_only P (arg_string name v)"
  by (cases v) (simp_all add: sends_only_return sends_only_throw)

lemma sends_only_if:
  "sends_only P a \<Longrightarrow> sends_only P b \<Longrightarrow> sends_only P (if c then a else b)"
  by simp

lemma sends_only_case_prod:
  "(\<And>a b. sends_only P (f a b)) \<Longrightarrow> sends_only P (case_prod f x)"
  by (cases x) simp

lemma sends_only_first_token: "sends_only P (first_token v)"
  by (cases v) (auto simp: sends_only_return sends_only_throw split: list.splits)

lemma sends_only_checkPathSafe: "sends_only P (checkPathSafe v)"
  by (auto simp: checkPathSafe_def sends_only_return sends_only_throw split: sum.splits)

lemmas sends_only_intros =
  sends_only_return sends_only_throw sends_only_bind sends_only_catch sends_only_read
  sends_only_update sends_only_exec sends_only_arg_string sends_only_if sends_only_case_prod
  sends_only_first_token sends_only_checkPathSafe

lemma sends_only_touch: "sends_only P (touch_global_css path)"
  unfolding touch_global_css_def by (intro sends_only_intros)

lemma handle_read_shape: "sends_only (response_shape data) (handle_read data)"
  unfolding handle_read_def readFile_def Let_def
  by (intro sends_only_intros sends_only_touch sends_only_send)
     (auto simp: response_shape_def stringify_object_def)

lemma handle_write_shape: "sends_only (response_shape data) (handle_write data)"
  unfolding handle_write_def dirname_def mkdir_recursive_def writeFile_def Let_def
  by (intro sends_only_intros sends_only_touch sends_only_send)
     (auto simp: response_shape_def stringify_object_def)

lemma handle_list_shape: "sends_only (response_shape data) (handle_list data)"
  unfolding handle_list_def  Let_def
  by (intro sends_only_intros sends_only_touch sends_only_send)
     (auto simp: response_shape_def stringify_object_def)

lemma handle_delete_shape: "sends_only (response_shape data) (handle_delete data)"
  unfolding handle_delete_def  Let_def
  by (intro sends_only_intros sends_only_touch sends_only_send)
     (auto simp: response_shape_def stringify_object_def)

lemma handle_rename_shape: "sends_only (response_shape data) (handle_rename data)"
  unfolding handle_rename_def dirname_def mkdir_recursive_def Let_def
  by (intro sends_only_intros sends_only_touch sends_only_send)
     (auto simp: response_shape_def stringify_object_def)

lemma handle_create_shape: "sends_only (response_shape data) (handle_create data)"
  unfolding handle_create_def dirname_def mkdir_recursive_def writeFile_def Let_def
  by (intro sends_only_intros sends_only_touch sends_only_send)
     (auto simp: response_shape_def stringify_object_def)

lemma handle_mkdir_shape: "sends_only (response_shape data) (handle_mkdir data)"
  unfolding handle_mkdir_def mkdir_recursive_def Let_def
  by (intro sends_only_intros sends_only_touch sends_only_send)
     (auto simp: response_shape_def stringify_object_def)

lemma handle_git_shape: "sends_only (response_shape data) (handle_git sh data)"
  unfolding handle_git_def  Let_def
  by (intro sends_only_intros sends_only_touch sends_only_send)
     (auto simp: response_shape_def stringify_object_def)

lemma handle_gitStatus_shape: "sends_only (response_shape data) (handle_gitStatus sh data)"
  unfolding handle_gitStatus_def  Let_def
  by (intro sends_only_intros sends_only_touch sends_only_send)
     (auto simp: response_shape_def stringify_object_def)

lemma handle_git_status_shape: "sends_only (response_shape data) (handle_git_status sh data)"
  unfolding handle_git_status_def  Let_def
  by (intro sends_only_intros sends_only_touch sends_only_send)
     (auto simp: response_shape_def stringify_object_def)

lemma handle_git_diff_shape: "sends_only (response_shape data) (handle_git_diff sh data)"
  unfolding handle_git_diff_def  Let_def
  by (intro sends_only_intros sends_only_touch sends_only_send)
     (auto simp: response_shape_def stringify_object_def)

lemma handle_git_commit_shape: "sends_only (response_shape data) (handle_git_commit sh data)"
  unfolding handle_git_commit_def  Let_def
  by (intro sends_only_intros sends_only_touch sends_only_send)
     (auto simp: response_shape_def stringify_object_def)

lemma handle_git_push_shape: "sends_only (response_shape data) (handle_git_push sh data)"
  unfolding handle_git_push_def  Let_def
  by (intro sends_only_intros sends_only_touch sends_only_send)
     (auto simp: response_shape_def stringify_object_def)

lemma handle_git_pull_force_shape: "sends_only (response_shape data) (handle_git_pull_force sh data)"
  unfolding handle_git_pull_force_def  Let_def
  by (intro sends_only_intros sends_only_touch sends_only_send)
     (auto simp: response_shape_def stringify_object_def)

lemma handle_exec_shape: "sends_only (response_shape data) (handle_exec sh data)"
  unfolding handle_exec_def  Let_def
  by (intro sends_only_intros sends_only_touch sends_only_send)
     (auto simp: response_shape_def stringify_object_def)

lemma dispatch_shape: "sends_only (response_shape data) (dispatch sh data)"
  unfolding dispatch_def Let_def
  by (intro sends_only_if sends_only_return handle_read_shape handle_write_shape
      handle_list_shape handle_delete_shape handle_rename_shape handle_create_shape
      handle_mkdir_shape handle_git_shape handle_gitStatus_shape handle_git_status_shape
      handle_git_diff_shape handle_git_commit_shape handle_git_push_shape
      handle_git_pull_force_shape handle_exec_shape)

lemma on_message_shape:
  "sends_only (\<lambda>m. m = pong \<or> response_shape (case msg of Parsed data \<Rightarrow> data | Malformed e \<Rightarrow> JObj [(''action'', JNull)]) m)
     (on_message sh msg)"
proof (cases msg)
  case (Malformed e)
  show ?thesis
    unfolding on_message_def Malformed inbound.case
    by (intro sends_only_intros sends_only_send)
       (auto simp: response_shape_def stringify_object_def)
next
  case (Parsed data)
  have d: "sends_only (\<lambda>m. m = pong \<or> response_shape data m) (dispatch sh data)"
    using dispatch_shape [of data sh] unfolding sends_only_def
    by (metis (mono_tags, lifting) list_all_iff)
  show ?thesis
    unfolding on_message_def Parsed inbound.case
    by (intro sends_only_intros sends_only_send d)
       (auto simp: response_shape_def stringify_object_def pong_def)
qed

text \<open>
  Claim C7, as amended. Whatever message arrives, the server only appends to the
  messages it has sent, and each message it sends is either the reply
  \<^verbatim>\<open>{action: 'pong'}\<close> to a ping, which has no \<^verbatim>\<open>success\<close> field, or an object with a
  boolean \<^verbatim>\<open>success\<close> that carries an \<^verbatim>\<open>error\<close> string whenever \<^verbatim>\<open>success\<close> is false. It
  carries an \<^verbatim>\<open>action\<close> field, with one exception: the rejection of an unsafe path
  echoes the action of the request, so it has none when the request had none.
\<close>

theorem outbound_message_shape:
  assumes "on_message sh msg s = (r, s')"
  shows "\<exists>ms. sent s' = sent s @ ms \<and>
           (\<forall>m \<in> set ms.
              m = JObj [(''action'', JStr ''pong'')]
              \<or> ((\<exists>b. field m ''success'' = JBool b)
                 \<and> (field m ''success'' = JBool False \<longrightarrow> (\<exists>e. field m ''error'' = JStr e))
                 \<and> (field m ''action'' = JUndefined \<longrightarrow>
                       (\<exists>data. msg = Parsed data \<and> field data ''action'' = JUndefined)
                       \<and> field m ''error'' = JStr ''Invalid file path'')))"
proof -
  let ?data = "case msg of Parsed data \<Rightarrow> data | Malformed e \<Rightarrow> JObj [(''action'', JNull)]"
  from on_message_shape [of msg sh] obtain ms where
    ms: "sent (snd (on_message sh msg s)) = sent s @ ms"
      "list_all (\<lambda>m. m = pong \<or> response_shape ?data m) ms"
    unfolding sends_only_def by blast
  have "m = JObj [(''action'', JStr ''pong'')]
              \<or> ((\<exists>b. field m ''success'' = JBool b)
                 \<and> (field m ''success'' = JBool False \<longrightarrow> (\<exists>e. field m ''error'' = JStr e))
                 \<and> (field m ''action'' = JUndefined \<longrightarrow>
                       (\<exists>data. msg = Parsed data \<and> field data ''action'' = JUndefined)
                       \<and> field m ''error'' = JStr ''Invalid file path''))"
    if "m \<in> set ms" for m
  proof -
    from that ms(2) have "m = pong \<or> response_shape ?data m" by (simp add: list_all_iff)
    then show ?thesis
      by (cases msg) (auto simp: pong_def response_shape_def)
  qed
  with ms(1) assms show ?thesis by auto
qed

theorem outbound_message_shape_witness:
  "sent (snd (on_message quiet_shell (Parsed traversal_without_action) (fresh_socket sample_tree)))
     = [JObj [(''path'', JStr ''../../etc/passwd''), (''error'', JStr ''Invalid file path''),
              (''success'', JBool False)]]
   \<and> field traversal_without_action ''action'' = JUndefined
   \<and> (\<exists>b. field (hd (sent (snd (on_message quiet_shell (Parsed traversal_without_action)
                (fresh_socket sample_tree))))) ''success'' = JBool b)"
proof -
  let ?run = "on_message quiet_shell (Parsed traversal_without_action) (fresh_socket sample_tree)"
  let ?m = "JObj [(''path'', JStr ''../../etc/passwd''), (''error'', JStr ''Invalid file path''),
              (''success'', JBool False)]"
  have ev: "sent (snd ?run) = [?m]" by code_simp
  have run: "?run = (fst ?run, snd ?run)" by simp
  from outbound_message_shape [OF run] obtain ms where
    ms: "sent (snd ?run) = sent (fresh_socket sample_tree) @ ms"
    and shape: "\<forall>m \<in> set ms.
              m = JObj [(''action'', JStr ''pong'')]
              \<or> ((\<exists>b. field m ''success'' = JBool b)
                 \<and> (field m ''success'' = JBool False \<longrightarrow> (\<exists>e. field m ''error'' = JStr e))
                 \<and> (field m ''action'' = JUndefined \<longrightarrow>
                       (\<exists>data. Parsed traversal_without_action = Parsed data
                           \<and> field data ''action'' = JUndefined)
                       \<and> field m ''error'' = JStr ''Invalid file path''))"
    by blast
  from ms ev have "ms = [?m]" by (simp add: fresh_socket_def)
  with shape have "\<exists>b. field ?m ''success'' = JBool b" by auto
  with ev show ?thesis by (simp add: traversal_without_action_def)
qed

text \<open>
  Claim C7 as stated gives every outbound message a boolean \<^verbatim>\<open>success\<close>, the reply
  to \<^verbatim>\<open>ping\<close> included. That reply has the \<^verbatim>\<open>action\<close> field only.
\<close>

theorem pong_has_no_success_counterexample:
  "on_message quiet_shell (Parsed (JObj [(''action'', JStr ''ping'')])) (fresh_socket sample_tree)
     = (Inr (), (fresh_socket sample_tree)\<lparr>sent := [JObj [(''action'', JStr ''pong'')]]\<rparr>)
   \<and> field (JObj [(''action'', JStr ''pong'')]) ''success'' = JUndefined
   \<and> field (JObj [(''action'', JStr ''pong'')]) ''error'' = JUndefined"
  by (simp add: on_message_def io_simps stringify_object_def fresh_socket_def)

section \<open>Claims about the path gate\<close>

lemma gate_rejects:
  assumes "field data ''action'' \<noteq> JStr ''ping''"
    and "truthy (field data ''path'')" and "isPathSafe (field data ''path'') \<noteq> Inr True"
  shows "\<exists>m. on_message sh (Parsed data) s = (Inr (), s\<lparr>sent := sent s @ [m]\<rparr>)
           \<and> field m ''success'' = JBool False \<and> (\<exists>e. field m ''error'' = JStr e)"
proof (cases "isPathSafe (field data ''path'')")
  case (Inr b)
  with assms(3) have "isPathSafe (field data ''path'') = Inr False" by simp
  from on_message_blocked [OF assms(1,2) this, of sh s] show ?thesis
    by (auto simp: stringify_object_def)
next
  case (Inl e)
  from assms(2) have "data \<noteq> JNull" "data \<noteq> JUndefined" by auto
  with assms Inl have "on_message sh (Parsed data) s =
      (Inr (), s\<lparr>sent := sent s @ [stringify_object
         [(''action'', JStr ''error''), (''error'', JStr e), (''success'', JBool False)]]\<rparr>)"
    by (simp add: on_message_def io_simps checkPathSafe_def)
  then show ?thesis by (auto simp: stringify_object_def)
qed

lemma rename_rejects:
  assumes "\<not> (truthy (field data ''oldPath'') \<and> truthy (field data ''newPath'')
              \<and> isPathSafe (field data ''oldPath'') = Inr True
              \<and> isPathSafe (field data ''newPath'') = Inr True)"
  shows "\<exists>e. handle_rename data s =
           (Inr (), s\<lparr>sent := sent s @ [stringify_object
              [(''action'', JStr ''rename''), (''oldPath'', field data ''oldPath''),
               (''newPath'', field data ''newPath''), (''success'', JBool False),
               (''error'', JStr e)]]\<rparr>)"
  using assms
  by (cases "isPathSafe (field data ''oldPath'')"; cases "isPathSafe (field data ''newPath'')")
     (auto simp: handle_rename_def io_simps checkPathSafe_def)

text \<open>
  Claim C1, as amended. A request other than \<^verbatim>\<open>ping\<close> whose \<^verbatim>\<open>path\<close> is truthy and does
  not pass the validator (it is unsafe, or it is not a string) is answered with
  exactly one message, with \<^verbatim>\<open>success: false\<close> and an error string, and the state
  changes in nothing else: no call reaches the file system or a subprocess. The
  same holds for a \<^verbatim>\<open>rename\<close> request unless both \<^verbatim>\<open>oldPath\<close> and \<^verbatim>\<open>newPath\<close> are present
  and pass the validator. A \<^verbatim>\<open>path\<close> that is absent or empty is not checked by the
  gate.
\<close>

theorem unsafe_path_is_rejected_without_effect:
  "(field data ''action'' \<noteq> JStr ''ping'' \<and> truthy (field data ''path'')
      \<and> isPathSafe (field data ''path'') \<noteq> Inr True
    \<longrightarrow> (\<exists>m. on_message sh (Parsed data) s = (Inr (), s\<lparr>sent := sent s @ [m]\<rparr>)
           \<and> field m ''success'' = JBool False \<and> (\<exists>e. field m ''error'' = JStr e)))
   \<and> (field data ''action'' = JStr ''rename''
      \<and> \<not> (truthy (field data ''oldPath'') \<and> truthy (field data ''newPath'')
             \<and> isPathSafe (field data ''oldPath'') = Inr True
             \<and> isPathSafe (field data ''newPath'') = Inr True)
    \<longrightarrow> (\<exists>m. on_message sh (Parsed data) s = (Inr (), s\<lparr>sent := sent s @ [m]\<rparr>)
           \<and> field m ''success'' = JBool False \<and> (\<exists>e. field m ''error'' = JStr e)))"
proof (intro conjI impI)
  assume "field data ''action'' \<noteq> JStr ''ping'' \<and> truthy (field data ''path'')
      \<and> isPathSafe (field data ''path'') \<noteq> Inr True"
  then show "\<exists>m. on_message sh (Parsed data) s = (Inr (), s\<lparr>sent := sent s @ [m]\<rparr>)
           \<and> field m ''success'' = JBool False \<and> (\<exists>e. field m ''error'' = JStr e)"
    using gate_rejects [of data sh s] by blast
next
  assume h: "field data ''action'' = JStr ''rename''
      \<and> \<not> (truthy (field data ''oldPath'') \<and> truthy (field data ''newPath'')
             \<and> isPathSafe (field data ''oldPath'') = Inr True
             \<and> isPathSafe (field data ''newPath'') = Inr True)"
  then have np: "field data ''action'' \<noteq> JStr ''ping''" by simp
  show "\<exists>m. on_message sh (Parsed data) s = (Inr (), s\<lparr>sent := sent s @ [m]\<rparr>)
           \<and> field m ''success'' = JBool False \<and> (\<exists>e. field m ''error'' = JStr e)"
  proof (cases "truthy (field data ''path'') \<and> isPathSafe (field data ''path'') \<noteq> Inr True")
    case True
    with np show ?thesis using gate_rejects [of data sh s] by blast
  next
    case False
    from h have obj: "data \<noteq> JNull" "data \<noteq> JUndefined" by auto
    from False have "\<not> truthy (field data ''path'') \<or> isPathSafe (field data ''path'') = Inr True"
      by blast
    from on_message_dispatch [OF obj np this, of sh s] h
    have "on_message sh (Parsed data) s = handle_rename data s" by (simp add: dispatch_def)
    with rename_rejects [of data s] h show ?thesis
      by (auto simp: stringify_object_def)
  qed
qed

theorem unsafe_path_is_rejected_without_effect_witness:
  "isPathSafe (JStr ''../../etc/passwd'') = Inr False
   \<and> fst (on_message quiet_shell (Parsed write_traversal_request) (fresh_socket sample_tree)) = Inr ()
   \<and> trace (snd (on_message quiet_shell (Parsed write_traversal_request) (fresh_socket sample_tree))) = []
   \<and> root (snd (on_message quiet_shell (Parsed write_traversal_request) (fresh_socket sample_tree)))
       = sample_tree
   \<and> length (sent (snd (on_message quiet_shell (Parsed write_traversal_request)
        (fresh_socket sample_tree)))) = 1
   \<and> isPathSafe (JStr ''.git/hooks/pre-commit'') = Inr False
   \<and> trace (snd (on_message quiet_shell (Parsed rename_into_git_request) (fresh_socket sample_tree))) = []
   \<and> root (snd (on_message quiet_shell (Parsed rename_into_git_request) (fresh_socket sample_tree)))
       = sample_tree"
proof -
  have u1: "isPathSafe (JStr ''../../etc/passwd'') = Inr False" by code_simp
  have u2: "isPathSafe (JStr ''.git/hooks/pre-commit'') = Inr False" by code_simp
  have h1: "field write_traversal_request ''action'' \<noteq> JStr ''ping''
      \<and> truthy (field write_traversal_request ''path'')
      \<and> isPathSafe (field write_traversal_request ''path'') \<noteq> Inr True"
    using u1 by (simp add: write_traversal_request_def)
  have h2: "field rename_into_git_request ''action'' = JStr ''rename''
      \<and> \<not> (truthy (field rename_into_git_request ''oldPath'')
             \<and> truthy (field rename_into_git_request ''newPath'')
             \<and> isPathSafe (field rename_into_git_request ''oldPath'') = Inr True
             \<and> isPathSafe (field rename_into_git_request ''newPath'') = Inr True)"
    using u2 by (simp add: rename_into_git_request_def)
  from unsafe_path_is_rejected_without_effect
         [of write_traversal_request quiet_shell "fresh_socket sample_tree"] h1
  obtain m1 where "on_message quiet_shell (Parsed write_traversal_request) (fresh_socket sample_tree)
      = (Inr (), (fresh_socket sample_tree)\<lparr>sent := sent (fresh_socket sample_tree) @ [m1]\<rparr>)"
    by blast
  then have a: "fst (on_message quiet_shell (Parsed write_traversal_request) (fresh_socket sample_tree)) = Inr ()"
    "trace (snd (on_message quiet_shell (Parsed write_traversal_request) (fresh_socket sample_tree))) = []"
    "root (snd (on_message quiet_shell (Parsed write_traversal_request) (fresh_socket sample_tree)))
       = sample_tree"
    "length (sent (snd (on_message quiet_shell (Parsed write_traversal_request)
        (fresh_socket sample_tree)))) = 1"
    by (simp_all add: fresh_socket_def)
  from unsafe_path_is_rejected_without_effect
         [of rename_into_git_request quiet_shell "fresh_socket sample_tree"] h2
  obtain m2 where "on_message quiet_shell (Parsed rename_into_git_request) (fresh_socket sample_tree)
      = (Inr (), (fresh_socket sample_tree)\<lparr>sent := sent (fresh_socket sample_tree) @ [m2]\<rparr>)"
    by blast
  then have b: 
    "trace (snd (on_message quiet_shell (Parsed rename_into_git_request) (fresh_socket sample_tree))) = []"
    "root (snd (on_message quiet_shell (Parsed rename_into_git_request) (fresh_socket sample_tree)))
       = sample_tree"
    by (simp_all add: fresh_socket_def)
  from u1 u2 a b show ?thesis by simp
qed

text \<open>
  Claim C1 as stated covers the \<^verbatim>\<open>file\<close> field and every unsafe \<^verbatim>\<open>path\<close>. The \<^verbatim>\<open>file\<close> of
  \<^verbatim>\<open>git-diff\<close> is never given to the validator: a subprocess runs on a protected
  path and the response is \<^verbatim>\<open>success: true\<close>. An empty \<^verbatim>\<open>path\<close>, which the validator
  rejects, skips the gate: \<^verbatim>\<open>list\<close> reads the working directory and answers
  \<^verbatim>\<open>success: true\<close>.
\<close>

theorem unvalidated_file_and_empty_path_counterexample:
  "isPathSafe (JStr ''.git/config'') = Inr False
   \<and> on_message quiet_shell (Parsed diff_protected_request) (fresh_socket one_file_tree) =
       (Inr (), (fresh_socket one_file_tree)\<lparr>
          trace := [Exec (''git diff -- '' @ [CHR 0x22] @ ''.git/config'' @ [CHR 0x22]) None],
          sent := [JObj [(''action'', JStr ''git-diff''), (''success'', JBool True),
                         (''file'', JStr ''.git/config''), (''diff'', JStr [])]]\<rparr>)
   \<and> isPathSafe (JStr []) = Inr False
   \<and> on_message quiet_shell (Parsed list_empty_path_request) (fresh_socket one_file_tree) =
       (Inr (), (fresh_socket one_file_tree)\<lparr>
          trace := [Readdir []],
          sent := [JObj [(''action'', JStr ''list''), (''path'', JStr []),
                         (''files'', JArr [dirent ''index.html'' ''index.html'' False]),
                         (''success'', JBool True)]]\<rparr>)"
proof -
  have a: "isPathSafe (JStr ''.git/config'') = Inr False" by code_simp
  have b: "on_message quiet_shell (Parsed diff_protected_request) (fresh_socket one_file_tree) =
       (Inr (), (fresh_socket one_file_tree)\<lparr>
          trace := [Exec (''git diff -- '' @ [CHR 0x22] @ ''.git/config'' @ [CHR 0x22]) None],
          sent := [JObj [(''action'', JStr ''git-diff''), (''success'', JBool True),
                         (''file'', JStr ''.git/config''), (''diff'', JStr [])]]\<rparr>)"
    by (simp add: on_message_def dispatch_def handle_git_diff_def io_simps execAsync_apply
        stringify_object_def fresh_socket_def diff_protected_request_def quiet_shell_def Let_def
        json_quote_def json_escape_def backslash_def)
  have c: "isPathSafe (JStr []) = Inr False" by simp
  have d: "on_message quiet_shell (Parsed list_empty_path_request) (fresh_socket one_file_tree) =
       (Inr (), (fresh_socket one_file_tree)\<lparr>
          trace := [Readdir []],
          sent := [JObj [(''action'', JStr ''list''), (''path'', JStr []),
                         (''files'', JArr [dirent ''index.html'' ''index.html'' False]),
                         (''success'', JBool True)]]\<rparr>)"
    by (simp add: on_message_def dispatch_def handle_list_def io_simps
        stringify_object_def fresh_socket_def list_empty_path_request_def one_file_tree_def
        segments_def Let_def)
  from a b c d show ?thesis by simp
qed

section \<open>Safe paths in the working directory\<close>

text \<open>
  The tree has no entry named \<^verbatim>\<open>..\<close>. This loses nothing: a path that the validator
  accepts has no such segment.
\<close>

lemma js_split_unfold:
  "js_split c s =
     takeWhile (\<lambda>y. y \<noteq> c) s #
       (case dropWhile (\<lambda>y. y \<noteq> c) s of [] \<Rightarrow> [] | d # rest \<Rightarrow> js_split c rest)"
proof (induction s)
  case Nil
  then show ?case by simp
next
  case (Cons a s)
  show ?case
  proof (cases "a = c")
    case True
    then show ?thesis by simp
  next
    case False
    then show ?thesis by (simp add: Cons.IH)
  qed
qed

lemma js_split_member:
  "x \<in> set (js_split c s) \<Longrightarrow> s = x \<or> prefix (x @ [c]) s \<or> sublist (c # x) s"
proof (induction s arbitrary: x rule: length_induct)
  case (1 s)
  let ?tw = "takeWhile (\<lambda>y. y \<noteq> c) s" and ?dw = "dropWhile (\<lambda>y. y \<noteq> c) s"
  have s: "s = ?tw @ ?dw" by simp
  show ?case
  proof (cases ?dw)
    case Nil
    with 1(2) s show ?thesis by (subst (asm) js_split_unfold) simp
  next
    case (Cons d rest)
    have d: "d = c" using hd_dropWhile [of "\<lambda>y. y \<noteq> c" s] Cons by auto
    have s': "s = ?tw @ c # rest" using s Cons d by simp
    from 1(2) Cons have "x = ?tw \<or> x \<in> set (js_split c rest)"
      by (subst (asm) js_split_unfold) simp
    then show ?thesis
    proof
      assume "x = ?tw"
      with s' have "prefix (x @ [c]) s" by (metis append.assoc append_Cons append_Nil prefixI)
      then show ?thesis by simp
    next
      assume x: "x \<in> set (js_split c rest)"
      have "length rest < length s" by (subst s') simp
      with 1(1) x have "rest = x \<or> prefix (x @ [c]) rest \<or> sublist (c # x) rest" by blast
      then have "sublist (c # x) (c # rest)"
        by (auto simp: sublist_Cons_right prefix_def)
      then have "sublist (c # x) (?tw @ c # rest)" by (simp add: sublist_append)
      with s' show ?thesis by simp
    qed
  qed
qed

lemma safe_path_has_no_parent_segment:
  assumes "isPathSafe_string p"
  shows "''..'' \<notin> set (segments p)"
proof
  assume "''..'' \<in> set (segments p)"
  then have "''..'' \<in> set (js_split CHR ''/'' p)" by (simp add: segments_def)
  from js_split_member [OF this]
  have "p = ''..'' \<or> sublist ''../'' p \<or> sublist ''/..'' p" by auto
  moreover have "sublist w (replace_backslashes p)"
    if "sublist w p" and "replace_backslashes w = w" for w
    using map_mono_sublist [OF that(1), of "\<lambda>c. if c = backslash then CHR ''/'' else c"] that(2)
    by (simp add: replace_backslashes_def)
  moreover have "replace_backslashes ''../'' = ''../''" "replace_backslashes ''/..'' = ''/..''"
    "replace_backslashes ''..'' = ''..''"
    by (simp_all add: backslash_def)
  ultimately have "has_traversal (replace_backslashes p)"
    unfolding has_traversal_def includes_sublist by metis
  with assms show False by (simp add: isPathSafe_string_def Let_def split: if_splits)
qed

end
